theory Spec2Isabelle
  imports Main "HOL-Library.Char_ord" "HOL-Library.List_Lexorder" "HOL-Library.Sublist"
    "HOL-Library.AList"
begin

section \<open>JavaScript strings\<close>

text \<open>
  The mock gateway of \<^verbatim>\<open>tools/mock-okta/util.js\<close> works on header values, urls and
  response bodies. A string is modelled as the list of its code units, each of them below
  256 (Node decodes header bytes as Latin-1, so for headers nothing is lost). The
  operations below are the methods of \<^verbatim>\<open>String.prototype\<close> and \<^verbatim>\<open>Array.prototype\<close> that the
  source calls.
\<close>

text \<open>\<^verbatim>\<open>s.indexOf(sub)\<close>: the first position at which \<open>sub\<close> starts, \<open>None\<close> for -1.\<close>

fun indexOf :: "string \<Rightarrow> string \<Rightarrow> nat option" where
  "indexOf [] sub = (if sub = [] then Some 0 else None)"
| "indexOf (c # cs) sub =
     (if prefix sub (c # cs) then Some 0 else map_option Suc (indexOf cs sub))"

text \<open>\<^verbatim>\<open>s.indexOf(sub) > -1\<close>, also written \<^verbatim>\<open>>= 0\<close> in the source.\<close>

definition includes_str :: "string \<Rightarrow> string \<Rightarrow> bool" where
  "includes_str s sub = (indexOf s sub \<noteq> None)"

text \<open>\<^verbatim>\<open>s.split(d)\<close> for a one-character separator: never the empty array.\<close>

fun split_str :: "char \<Rightarrow> string \<Rightarrow> string list" where
  "split_str d [] = [[]]"
| "split_str d (c # cs) =
     (if c = d then [] # split_str d cs
      else (case split_str d cs of [] \<Rightarrow> [[c]] | x # xs \<Rightarrow> (c # x) # xs))"

text \<open>
  White space as \<^verbatim>\<open>trim\<close> and the regular expression class \<^verbatim>\<open>\s\<close> see it, among the
  code units below 256: tab, line feed, vertical tab, form feed, carriage return, space and
  the no-break space.
\<close>

definition is_space :: "char \<Rightarrow> bool" where
  "is_space c = (c \<in> {CHR 0x09, CHR 0x0A, CHR 0x0B, CHR 0x0C, CHR 0x0D, CHR 0x20, CHR 0xA0})"

definition trim :: "string \<Rightarrow> string" where
  "trim s = rev (dropWhile is_space (rev (dropWhile is_space s)))"

text \<open>\<^verbatim>\<open>xs.join(sep)\<close> on an array of strings.\<close>

fun join :: "string \<Rightarrow> string list \<Rightarrow> string" where
  "join sep [] = []"
| "join sep [x] = x"
| "join sep (x # y # ys) = x @ sep @ join sep (y # ys)"

text \<open>
  \<^verbatim>\<open>xs.sort()\<close> with no comparator orders strings by their code units, which is the
  lexicographic order of \<^typ>\<open>string\<close>; \<^const>\<open>sort\<close> is stable, as the engine's sort is.
\<close>

definition sort_strings :: "string list \<Rightarrow> string list" where
  "sort_strings xs = sort xs"

subsection \<open>Replacement text\<close>

text \<open>
  \<^verbatim>\<open>String.prototype.replace\<close> does not insert its second argument as it is: it expands
  the dollar patterns of the language (GetSubstitution). \<open>m\<close> is the matched text,
  \<open>pre\<close> and \<open>post\<close> the text before and after it, \<open>caps\<close> the capture groups (\<open>None\<close> for a
  group that did not take part). There are no named groups in this program, so
  \<^verbatim>\<open>$<\<close> stands for itself.
\<close>

definition is_digit :: "char \<Rightarrow> bool" where
  "is_digit c = (CHR ''0'' \<le> c \<and> c \<le> CHR ''9'')"

definition digit_val :: "char \<Rightarrow> nat" where
  "digit_val c = of_char c - 48"

definition capture :: "string option list \<Rightarrow> nat \<Rightarrow> string" where
  "capture caps n = (case caps ! (n - 1) of None \<Rightarrow> [] | Some s \<Rightarrow> s)"

fun getSubstitution ::
  "string \<Rightarrow> string \<Rightarrow> string \<Rightarrow> string option list \<Rightarrow> string \<Rightarrow> string" where
  "getSubstitution m pre post caps [] = []"
| "getSubstitution m pre post caps [c] = [c]"
| "getSubstitution m pre post caps (c # d # r) =
     (if c \<noteq> CHR ''$'' then c # getSubstitution m pre post caps (d # r)
      else if d = CHR ''$'' then CHR ''$'' # getSubstitution m pre post caps r
      else if d = CHR ''&'' then m @ getSubstitution m pre post caps r
      else if d = CHR 0x60 then pre @ getSubstitution m pre post caps r
      else if d = CHR 0x27 then post @ getSubstitution m pre post caps r
      else if is_digit d then
        (case r of
           [] \<Rightarrow>
             (if 1 \<le> digit_val d \<and> digit_val d \<le> length caps then capture caps (digit_val d)
              else [c, d])
         | e # r' \<Rightarrow>
             (if is_digit e \<and> 1 \<le> 10 * digit_val d + digit_val e
                 \<and> 10 * digit_val d + digit_val e \<le> length caps
              then capture caps (10 * digit_val d + digit_val e)
                     @ getSubstitution m pre post caps r'
              else if 1 \<le> digit_val d \<and> digit_val d \<le> length caps
              then capture caps (digit_val d) @ getSubstitution m pre post caps (e # r')
              else c # d # getSubstitution m pre post caps (e # r')))
      else c # getSubstitution m pre post caps (d # r))"

text \<open>
  \<^verbatim>\<open>s.replace(pat, repl)\<close> with a string pattern: the first occurrence only, no capture
  groups.
\<close>

definition replace_str :: "string \<Rightarrow> string \<Rightarrow> string \<Rightarrow> string" where
  "replace_str s pat repl =
     (case indexOf s pat of
        None \<Rightarrow> s
      | Some i \<Rightarrow>
          take i s
            @ getSubstitution pat (take i s) (drop (i + length pat) s) [] repl
            @ drop (i + length pat) s)"

section \<open>Regular expressions\<close>

text \<open>
  The source uses five regular expressions, two of them built at run time. They are
  modelled by a backtracking matcher over the constructs they use. A character class is
  a literal, a literal under the \<^verbatim>\<open>i\<close> flag, the dot (anything but a line terminator), a
  negated one-character set such as \<^verbatim>\<open>[^;]\<close>, or \<^verbatim>\<open>\s\<close>.
\<close>

datatype cclass = Lit char | LitI char | Dot | NotC char | Space

definition ascii_upper :: "char \<Rightarrow> char" where
  "ascii_upper c =
     (if CHR ''a'' \<le> c \<and> c \<le> CHR ''z'' then char_of (of_char c - (32::nat)) else c)"

fun cmatch :: "cclass \<Rightarrow> char \<Rightarrow> bool" where
  "cmatch (Lit c) x = (x = c)"
| "cmatch (LitI c) x = (ascii_upper x = ascii_upper c)"
| "cmatch Dot x = (x \<noteq> CHR 0x0A \<and> x \<noteq> CHR 0x0D)"
| "cmatch (NotC c) x = (x \<noteq> c)"
| "cmatch Space x = is_space x"

text \<open>
  \<open>Rep lo hi c\<close> is the greedy quantifier \<^verbatim>\<open>c{lo,hi}\<close> on a class (\<open>hi = None\<close> for no upper
  bound, so \<^verbatim>\<open>c+\<close> is \<open>Rep 1 None c\<close>), \<open>Opt r\<close> is \<^verbatim>\<open>r?\<close>, \<open>Grp i r\<close> the capture group
  number \<open>i\<close>, \<open>Eol\<close> the assertion \<^verbatim>\<open>$\<close> (no \<^verbatim>\<open>m\<close> flag is used).
\<close>

datatype rx =
    Atom cclass
  | Rep nat "nat option" cclass
  | Seq rx rx
  | Alt rx rx
  | Opt rx
  | Grp nat rx
  | Eol
  | Eps

type_synonym caps = "nat \<Rightarrow> string option"

text \<open>
  The matcher returns every way a pattern can match at the start of the input, as the
  text left over and the captures, in the order in which a backtracking engine tries them:
  a greedy quantifier tries its longest run first, an alternative its left branch first.
  The engine takes the first.
\<close>

fun rep_matches :: "cclass \<Rightarrow> nat \<Rightarrow> nat option \<Rightarrow> string \<Rightarrow> string list" where
  "rep_matches c lo hi [] = (if lo = 0 then [[]] else [])"
| "rep_matches c lo hi (x # xs) =
     (if cmatch c x \<and> hi \<noteq> Some 0
      then rep_matches c (lo - 1) (map_option (\<lambda>h. h - 1) hi) xs else [])
     @ (if lo = 0 then [x # xs] else [])"

fun matches :: "rx \<Rightarrow> string \<Rightarrow> caps \<Rightarrow> (string \<times> caps) list" where
  "matches (Atom c) s cs =
     (case s of [] \<Rightarrow> [] | x # xs \<Rightarrow> if cmatch c x then [(xs, cs)] else [])"
| "matches (Rep lo hi c) s cs = map (\<lambda>r. (r, cs)) (rep_matches c lo hi s)"
| "matches (Seq a b) s cs = concat (map (\<lambda>(s', cs'). matches b s' cs') (matches a s cs))"
| "matches (Alt a b) s cs = matches a s cs @ matches b s cs"
| "matches (Opt a) s cs = matches a s cs @ [(s, cs)]"
| "matches (Grp i a) s cs =
     map (\<lambda>(s', cs'). (s', cs'(i := Some (take (length s - length s') s)))) (matches a s cs)"
| "matches Eol s cs = (if s = [] then [(s, cs)] else [])"
| "matches Eps s cs = [(s, cs)]"

fun ngroups :: "rx \<Rightarrow> nat" where
  "ngroups (Seq a b) = ngroups a + ngroups b"
| "ngroups (Alt a b) = ngroups a + ngroups b"
| "ngroups (Opt a) = ngroups a"
| "ngroups (Grp i a) = Suc (ngroups a)"
| "ngroups r = 0"

text \<open>One attempt of the engine at the current position.\<close>

definition exec_at :: "rx \<Rightarrow> string \<Rightarrow> (string \<times> caps) option" where
  "exec_at r s = (case matches r s (\<lambda>_. None) of [] \<Rightarrow> None | m # _ \<Rightarrow> Some m)"

definition caps_list :: "rx \<Rightarrow> caps \<Rightarrow> string option list" where
  "caps_list r cs = map cs [1 ..< Suc (ngroups r)]"

text \<open>
  \<^verbatim>\<open>s.match(re)\<close> for a pattern without the \<^verbatim>\<open>g\<close> flag: the leftmost position at which the
  engine succeeds; the result is the text before, the match, the text after and the
  captures. \<open>None\<close> is JavaScript's \<^verbatim>\<open>null\<close>.
\<close>

fun search :: "rx \<Rightarrow> string \<Rightarrow> string \<Rightarrow> (string \<times> string \<times> string \<times> caps) option" where
  "search r pre [] =
     (case exec_at r [] of None \<Rightarrow> None | Some (rest, cs) \<Rightarrow> Some (pre, [], [], cs))"
| "search r pre (x # xs) =
     (case exec_at r (x # xs) of
        None \<Rightarrow> search r (pre @ [x]) xs
      | Some (rest, cs) \<Rightarrow>
          Some (pre, take (length (x # xs) - length rest) (x # xs), rest, cs))"

text \<open>
  \<^verbatim>\<open>s.replace(re, repl)\<close> for a pattern with the \<^verbatim>\<open>g\<close> flag: every match, left to right,
  each search starting where the last match ended (one further after an empty match).
  \<open>skip\<close> counts the characters of the current match that are still to be passed over.
\<close>

fun replace_scan :: "rx \<Rightarrow> string \<Rightarrow> string \<Rightarrow> nat \<Rightarrow> string \<Rightarrow> string" where
  "replace_scan r repl pre skip [] =
     (if skip = 0 then
        (case exec_at r [] of
           None \<Rightarrow> []
         | Some (rest, cs) \<Rightarrow> getSubstitution [] pre [] (caps_list r cs) repl)
      else [])"
| "replace_scan r repl pre skip (x # xs) =
     (if 0 < skip then replace_scan r repl (pre @ [x]) (skip - 1) xs
      else
        (case exec_at r (x # xs) of
           None \<Rightarrow> x # replace_scan r repl (pre @ [x]) 0 xs
         | Some (rest, cs) \<Rightarrow>
             (let n = length (x # xs) - length rest in
              getSubstitution (take n (x # xs)) pre rest (caps_list r cs) repl
                @ (if n = 0 then x # replace_scan r repl (pre @ [x]) 0 xs
                   else replace_scan r repl (pre @ [x]) (n - 1) xs))))"

definition replace_all :: "rx \<Rightarrow> string \<Rightarrow> string \<Rightarrow> string" where
  "replace_all r s repl = replace_scan r repl [] 0 s"

text \<open>A run of literal characters, and the same under the \<^verbatim>\<open>i\<close> flag.\<close>

fun lits :: "string \<Rightarrow> rx" where
  "lits [] = Eps"
| "lits (c # cs) = Seq (Atom (Lit c)) (lits cs)"

fun lits_i :: "string \<Rightarrow> rx" where
  "lits_i [] = Eps"
| "lits_i (c # cs) = Seq (Atom (LitI c)) (lits_i cs)"

section \<open>Requests, headers and the session extract\<close>

text \<open>
  An exception of the source is a value of the model: \<open>TypeError\<close> is what a property
  read or a method call on \<^verbatim>\<open>undefined\<close> or \<^verbatim>\<open>null\<close> raises (and a property write on a
  primitive, the file being in strict mode), \<open>SyntaxError\<close> is what \<^verbatim>\<open>JSON.parse\<close> raises,
  \<open>LibError\<close> stands for an exception raised inside a library call.
\<close>

datatype error = TypeError | SyntaxError | LibError

text \<open>Sequencing of steps that may raise: the first exception ends the call.\<close>

definition and_then :: "error + 'a \<Rightarrow> ('a \<Rightarrow> error + 'b) \<Rightarrow> error + 'b" where
  "and_then r f = (case r of Inl err \<Rightarrow> Inl err | Inr x \<Rightarrow> f x)"

text \<open>
  A header value is a string or, for headers that Node keeps apart (\<^verbatim>\<open>set-cookie\<close>), an
  array of strings. A header object is a partial map from names to values.
\<close>

datatype hval = Str string | Arr "string list"

type_synonym headers = "string \<Rightarrow> hval option"

text \<open>Truthiness of a property: absent and the empty string are falsy, an array is truthy.\<close>

fun truthy :: "hval option \<Rightarrow> bool" where
  "truthy None = False"
| "truthy (Some (Str s)) = (s \<noteq> [])"
| "truthy (Some (Arr xs)) = True"

text \<open>
  \<^verbatim>\<open>v.indexOf(x) > -1\<close> on a header value: a substring test on a string, a membership test
  on an array.
\<close>

fun hval_includes :: "hval \<Rightarrow> string \<Rightarrow> bool" where
  "hval_includes (Str s) x = includes_str s x"
| "hval_includes (Arr xs) x = (x \<in> set xs)"

text \<open>
  A value of the parsed query string: absent, a string, or an array when the parameter is
  repeated. \<open>template\<close> is the conversion a template literal applies.
\<close>

datatype qval = QUndef | QStr string | QArr "string list"

fun template :: "qval \<Rightarrow> string" where
  "template QUndef = ''undefined''"
| "template (QStr s) = s"
| "template (QArr xs) = join '','' xs"

record request =
  req_method :: string
  req_url :: string
  req_headers :: headers

text \<open>The Session Extract: the object \<^verbatim>\<open>data\<close> that \<^verbatim>\<open>mapRequestToCache\<close> returns.\<close>

record data =
  isAuthorizeReq :: bool
  responseMode :: qval
  state :: qval
  nonce :: qval
  cookie :: "hval option"
  isRedirectCallback :: bool
  isTokenReq :: bool

definition empty_data :: data where
  "empty_data =
     \<lparr>isAuthorizeReq = False, responseMode = QUndef, state = QUndef, nonce = QUndef,
      cookie = None, isRedirectCallback = False, isTokenReq = False\<rparr>"

subsection \<open>What the program takes from outside\<close>

text \<open>
  Node's \<^verbatim>\<open>url.parse\<close> and \<^verbatim>\<open>querystring.parse\<close>, the \<^verbatim>\<open>jws\<close> and \<^verbatim>\<open>oidc-token-hash\<close>
  packages, the clock and the key material of \<^verbatim>\<open>keys-test.js\<close> are not part of the file.
  The model takes them as parameters, gathered in one record. A field of a parsed url is
  \<open>None\<close> where Node gives \<^verbatim>\<open>null\<close>.
\<close>

record parsed_url =
  protocol :: "string option"
  hostname :: "string option"
  port :: "string option"
  host :: "string option"
  query :: "string option"

text \<open>
  JSON values, for the header and the claims of a token. A property of an object in
  memory may hold \<^verbatim>\<open>undefined\<close>, which is \<open>None\<close>; \<^verbatim>\<open>JSON.parse\<close> never produces one and
  \<^verbatim>\<open>JSON.stringify\<close> leaves such a property out.
\<close>

datatype json =
    JNull
  | JBool bool
  | JNum int
  | JStr string
  | JArr "json list"
  | JObj "(string \<times> json) list"

type_synonym obj = "(string \<times> json option) list"

record env =
  url_parse :: "string \<Rightarrow> parsed_url"
  querystring_parse :: "string option \<Rightarrow> string \<Rightarrow> qval"
  jws_decode :: "string \<Rightarrow> (json \<times> string) option"
  json_parse :: "string \<Rightarrow> json option"
  jws_sign :: "json \<Rightarrow> json \<Rightarrow> string \<Rightarrow> error + string"
  jws_verify :: "string \<Rightarrow> json \<Rightarrow> string \<Rightarrow> bool"
  tokenHash_generate :: "string \<Rightarrow> string"
  date_getTime :: "nat \<Rightarrow> int"
  keys_kid :: string
  keys_privatePem :: string
  keys_publicKey :: string
  keys_accessToken :: string

section \<open>The request normalizer\<close>

text \<open>\<^verbatim>\<open>util.parseQuery\<close>: the query parameters of a url.\<close>

definition parseQuery :: "env \<Rightarrow> string \<Rightarrow> string \<Rightarrow> qval" where
  "parseQuery e urlStr = querystring_parse e (query (url_parse e urlStr))"

text \<open>The six \<^verbatim>\<open>delete\<close> statements at the head of \<^verbatim>\<open>mapRequestToCache\<close>.\<close>

definition delete_volatile :: "headers \<Rightarrow> headers" where
  "delete_volatile h =
     h(''upgrade-insecure-requests'' := None, ''x-okta-user-agent-extended'' := None,
       ''if-none-match'' := None, ''if-modified-since'' := None,
       ''expect'' := None, ''referer'' := None)"

text \<open>The fixed user agent, connection, language and encoding.\<close>

definition user_agent :: string where
  "user_agent =
     ''Mozilla/5.0 (Macintosh; Intel Mac OS X 10.10; rv:48.0) Gecko/20100101 Firefox/48.0''"

definition force_fixed :: "headers \<Rightarrow> headers" where
  "force_fixed h =
     h(''user-agent'' \<mapsto> Str user_agent, ''connection'' \<mapsto> Str ''keep-alive'',
       ''accept-language'' \<mapsto> Str ''en-US'', ''accept-encoding'' \<mapsto> Str ''gzip'')"

text \<open>The \<^verbatim>\<open>accept\<close> header: rewritten only when the header is there and not empty.\<close>

definition accept_html :: string where
  "accept_html = ''text/html,application/xhtml+xml,application/xml;q=0.9,image/webp,*/*;q=0.8''"

definition norm_accept :: "headers \<Rightarrow> headers" where
  "norm_accept h =
     (case h ''accept'' of
        None \<Rightarrow> h
      | Some v \<Rightarrow>
          if \<not> truthy (Some v) then h
          else if hval_includes v ''text/html'' then h(''accept'' \<mapsto> Str accept_html)
          else if hval_includes v ''json'' then h(''accept'' \<mapsto> Str ''application/json'')
          else h(''accept'' \<mapsto> Str ''*/*''))"

text \<open>\<^verbatim>\<open>content-type\<close> on api requests that are not preflight requests.\<close>

definition norm_content_type :: "bool \<Rightarrow> string \<Rightarrow> headers \<Rightarrow> headers" where
  "norm_content_type isPreflight u h =
     (if \<not> isPreflight \<and> includes_str u ''/api/v1''
      then h(''content-type'' \<mapsto> Str ''application/json'') else h)"

text \<open>
  The preflight branch. \<^verbatim>\<open>split\<close> is called on whatever the header holds: an absent
  header or an array raises a \<^verbatim>\<open>TypeError\<close>.
\<close>

definition norm_request_headers :: "string \<Rightarrow> string" where
  "norm_request_headers v =
     join '', ''
       (sort_strings
          (filter (\<lambda>header. header \<notin> set [''accept'', ''origin''])
             (map trim (split_str CHR '','' v))))"

definition norm_preflight :: "headers \<Rightarrow> error + headers" where
  "norm_preflight h =
     (let h1 = (if h ''content-length'' = Some (Str ''0'') then h(''content-length'' := None) else h)
      in case h1 ''access-control-request-headers'' of
           Some (Str v) \<Rightarrow>
             Inr (h1(''access-control-request-headers'' \<mapsto> Str (norm_request_headers v)))
         | _ \<Rightarrow> Inl TypeError)"

text \<open>
  The cookie: \<^verbatim>\<open>headers.cookie || ''\<close>, then every match of
  \<^verbatim>\<open>/ADRUM[^;]+(;|$)\s*/gi\<close> is removed. An array has no \<^verbatim>\<open>replace\<close> method.
\<close>

definition adrum_rx :: rx where
  "adrum_rx =
     Seq (lits_i ''ADRUM'')
       (Seq (Rep 1 None (NotC CHR '';''))
          (Seq (Grp 1 (Alt (Atom (Lit CHR '';'')) Eol)) (Rep 0 None Space)))"

definition norm_cookie :: "headers \<Rightarrow> error + headers" where
  "norm_cookie h =
     (case (if truthy (h ''cookie'') then h ''cookie'' else Some (Str [])) of
        Some (Str c) \<Rightarrow> Inr (h(''cookie'' \<mapsto> Str (replace_all adrum_rx c [])))
      | _ \<Rightarrow> Inl TypeError)"

definition no_cache :: "headers \<Rightarrow> headers" where
  "no_cache h = h(''cache-control'' \<mapsto> Str ''no-cache, no-store'', ''pragma'' \<mapsto> Str ''no-cache'')"

text \<open>
  The chain of flow branches, on the url as received and the headers as normalized so far.
  The result is the request as the function leaves it and the object it returns.
\<close>

definition authorize_url :: "string \<Rightarrow> qval \<Rightarrow> qval \<Rightarrow> string" where
  "authorize_url u st no =
     replace_str
       (replace_str
          (replace_str u (''state='' @ template st) ''state=STATE'')
          (''nonce='' @ template no) ''nonce=NONCE'')
       ''profile%20email%20openid'' ''openid%20profile%20email''"

definition flow :: "env \<Rightarrow> bool \<Rightarrow> request \<Rightarrow> request \<times> data" where
  "flow e record req =
     (let u = req_url req; h = req_headers req in
      if includes_str u ''authorize?'' then
        (let q = parseQuery e u in
         (req\<lparr>req_url := authorize_url u (q ''state'') (q ''nonce''),
              req_headers := h(''cookie'' := None)\<rparr>,
          empty_data\<lparr>isAuthorizeReq := True, responseMode := q ''response_mode'',
                      state := q ''state'', nonce := q ''nonce'', cookie := h ''cookie''\<rparr>))
      else if u = ''/api/v1/authn'' then
        (req\<lparr>req_headers := h(''cookie'' := None)\<rparr>, empty_data\<lparr>cookie := h ''cookie''\<rparr>)
      else if includes_str u ''/sessions/me'' \<and> req_method req = ''DELETE'' then
        (req, empty_data\<lparr>cookie := h ''cookie''\<rparr>)
      else if indexOf u ''/oauth2/v1/authorize/redirect'' = Some 0 then
        (req, empty_data\<lparr>isRedirectCallback := True\<rparr>)
      else if indexOf u ''/oauth2/default/v1/token'' = Some 0 then
        (req, empty_data\<lparr>isTokenReq := True\<rparr>)
      else if \<not> record \<and> includes_str u ''/oauth2/default/v1/userinfo'' then
        (req\<lparr>req_headers := h(''authorization'' \<mapsto> Str (''Bearer '' @ keys_accessToken e))\<rparr>,
         empty_data)
      else (req, empty_data))"

text \<open>
  \<^verbatim>\<open>mapRequestToCache\<close>. The request object is changed in place by the source; the model
  returns it with the Session Extract. Up to the flow branches the function works on the
  headers alone: \<open>norm_headers\<close> is that part. \<^verbatim>\<open>logDiff\<close> prints a table for debugging:
  the values of headers are strings and arrays, which it can print, so it has no part in
  the result.
\<close>

definition norm_headers :: "request \<Rightarrow> error + headers" where
  "norm_headers req =
     (let headers = req_headers req;
          isPreflight = truthy (headers ''access-control-request-method'');
          h1 = norm_content_type isPreflight (req_url req)
                 (norm_accept (force_fixed (delete_volatile headers)))
      in and_then (if isPreflight then norm_preflight h1 else Inr h1) (\<lambda>h2.
         and_then (norm_cookie h2) (\<lambda>h3. Inr (no_cache h3))))"

definition mapRequestToCache :: "env \<Rightarrow> request \<Rightarrow> bool \<Rightarrow> error + request \<times> data" where
  "mapRequestToCache e req record =
     and_then (norm_headers req) (\<lambda>h. Inr (flow e record (req\<lparr>req_headers := h\<rparr>)))"

section \<open>The url rewriter\<close>

text \<open>
  The object \<^verbatim>\<open>data\<close> that the response functions receive: the Session Extract together
  with the three urls of the Endpoint Configuration.
\<close>

record rdata = data +
  proxy :: string
  proxied :: string
  cdn :: string

text \<open>A \<^verbatim>\<open>null\<close> inside a template literal prints as the word.\<close>

fun null_str :: "string option \<Rightarrow> string" where
  "null_str None = ''null''"
| "null_str (Some s) = s"

text \<open>
  \<^verbatim>\<open>replaceUrls\<close> pastes the protocol, the host name, the port and the CDN host into the
  source text of a regular expression without escaping them, so a dot of a host name is the
  wildcard. Every other character is read as a literal, which is what the engine does
  unless the character belongs to the syntax of regular expressions; \<open>regex_plain\<close> says
  that a text has no such character, and the theorems on \<^verbatim>\<open>replaceUrls\<close> ask for it.
\<close>

fun rx_text :: "string \<Rightarrow> rx" where
  "rx_text [] = Eps"
| "rx_text (c # cs) = Seq (Atom (if c = CHR ''.'' then Dot else Lit c)) (rx_text cs)"



text \<open>
  The first pattern: the protocol without its colon, \<^verbatim>\<open>.{3,12}\<close>, the host name and, when
  there is a port, \<^verbatim>\<open>.{1,4}\<close> and the port.
\<close>

definition escapes_rx :: "string \<Rightarrow> parsed_url \<Rightarrow> rx" where
  "escapes_rx proto p =
     Seq (rx_text (butlast proto))
       (Seq (Rep 3 (Some 12) Dot)
          (Seq (rx_text (null_str (hostname p)))
             (case port p of
                None \<Rightarrow> Eps
              | Some n \<Rightarrow> if n = [] then Eps else Seq (Rep 1 (Some 4) Dot) (rx_text n))))"

text \<open>The second pattern: \<^verbatim>\<open>(https:)?//\<close> and the host of the CDN url.\<close>

definition cdn_rx :: "parsed_url \<Rightarrow> rx" where
  "cdn_rx p =
     Seq (Opt (Grp 1 (lits ''https:''))) (Seq (lits ''//'') (rx_text (null_str (host p))))"

text \<open>
  \<^verbatim>\<open>replaceUrls\<close>: both patterns, each with the \<^verbatim>\<open>g\<close> flag, one after the other. Without a
  protocol \<^verbatim>\<open>proxied.protocol\<close> is \<^verbatim>\<open>null\<close> and \<^verbatim>\<open>slice\<close> raises.
\<close>

definition replaceUrls :: "env \<Rightarrow> string \<Rightarrow> 'a rdata_scheme \<Rightarrow> error + string" where
  "replaceUrls e str d =
     (let p = url_parse e (proxied d) in
      case protocol p of
        None \<Rightarrow> Inl TypeError
      | Some proto \<Rightarrow>
          Inr (replace_all (cdn_rx (url_parse e (cdn d)))
                 (replace_all (escapes_rx proto p) str (proxy d)) (proxy d)))"

section \<open>The token swapper\<close>

text \<open>
  A property assignment \<^verbatim>\<open>o.k = v\<close> on a parsed JSON value. On an object the property is
  replaced where it stands or added at the end. An array takes the property but
  \<^verbatim>\<open>JSON.stringify\<close> does not print it. Anything else is a primitive or \<^verbatim>\<open>null\<close>, and the
  assignment raises.
\<close>

definition to_obj :: "(string \<times> json) list \<Rightarrow> obj" where
  "to_obj ps = map (\<lambda>(k, v). (k, Some v)) ps"

text \<open>What \<^verbatim>\<open>JSON.stringify\<close> prints of an object: the properties that are not undefined.\<close>

fun stringify_props :: "obj \<Rightarrow> (string \<times> json) list" where
  "stringify_props [] = []"
| "stringify_props ((k, None) # ps) = stringify_props ps"
| "stringify_props ((k, Some v) # ps) = (k, v) # stringify_props ps"

text \<open>The value a query parameter has as a claim.\<close>

fun qval_json :: "qval \<Rightarrow> json option" where
  "qval_json QUndef = None"
| "qval_json (QStr s) = Some (JStr s)"
| "qval_json (QArr xs) = Some (JArr (map JStr xs))"

text \<open>The claims patch: the second argument of the two swap functions.\<close>

record patch =
  patch_nonce :: qval
  patch_iss :: string
  patch_at_hash :: "string option"

text \<open>\<^verbatim>\<open>header.kid = keys.publicJwk.kid\<close>.\<close>

fun set_kid :: "string \<Rightarrow> json \<Rightarrow> error + json" where
  "set_kid kid (JObj ps) = Inr (JObj (AList.update ''kid'' (JStr kid) ps))"
| "set_kid kid (JArr xs) = Inr (JArr xs)"
| "set_kid kid j = Inl TypeError"

text \<open>
  The expiry: \<^verbatim>\<open>Math.floor(new Date().getTime() / 1000) + 3600\<close>. The clock is read once in
  each swap; \<open>date_getTime e site\<close> is the reading at the call site \<open>site\<close>.
\<close>

definition expiry :: "env \<Rightarrow> nat \<Rightarrow> int" where
  "expiry e site = date_getTime e site div 1000 + 3600"

text \<open>
  The new claims of an ID token. The test \<^verbatim>\<open>data.at_hash != 'undefined'\<close> compares
  with the string of nine letters: it holds for an absent hash, which is then assigned.
\<close>

definition id_claims :: "env \<Rightarrow> nat \<Rightarrow> patch \<Rightarrow> obj \<Rightarrow> obj" where
  "id_claims e site d claims =
     (let c1 = AList.update ''nonce'' (qval_json (patch_nonce d)) claims;
          c2 = AList.update ''iss'' (Some (JStr (patch_iss d))) c1;
          c3 = (if patch_at_hash d \<noteq> Some ''undefined''
                then AList.update ''at_hash'' (map_option JStr (patch_at_hash d)) c2 else c2)
      in AList.update ''exp'' (Some (JNum (expiry e site))) c3)"

definition access_claims :: "env \<Rightarrow> nat \<Rightarrow> patch \<Rightarrow> obj \<Rightarrow> obj" where
  "access_claims e site d claims =
     (let c1 = AList.update ''nonce'' (qval_json (patch_nonce d)) claims;
          c2 = AList.update ''iss'' (Some (JStr (patch_iss d))) c1
      in AList.update ''exp'' (Some (JNum (expiry e site))) c2)"

text \<open>
  \<^verbatim>\<open>logDiff(title, before, after)\<close> prints a table for the debug log. Every value of
  \<^verbatim>\<open>before\<close>, and the value that \<^verbatim>\<open>after\<close> has under the same name, goes through
  \<^verbatim>\<open>toString\<close> and then to \<^verbatim>\<open>diff.diffChars\<close>, which splits its arguments into characters.
  \<^verbatim>\<open>toString\<close> makes a string of an array, of a number and of a boolean, and the empty
  string of \<^verbatim>\<open>null\<close> and \<^verbatim>\<open>undefined\<close>; an object stays an object, it has no \<^verbatim>\<open>split\<close>, and
  the call raises. The rest of \<^verbatim>\<open>logDiff\<close> formats strings. A row is a value of \<^verbatim>\<open>before\<close>
  with the value of \<^verbatim>\<open>after\<close> beside it.
\<close>

fun diffable :: "json option \<Rightarrow> bool" where
  "diffable (Some (JObj ps)) = False"
| "diffable v = True"

definition diff_rows :: "(json option \<times> json option) list \<Rightarrow> error + unit" where
  "diff_rows rows =
     (if list_all (\<lambda>(b, a). diffable b \<and> diffable a) rows then Inr () else Inl TypeError)"

text \<open>The value of a property: \<^verbatim>\<open>undefined\<close> when the object has none of that name.\<close>

definition get_prop :: "obj \<Rightarrow> string \<Rightarrow> json option" where
  "get_prop ob k = (case map_of ob k of None \<Rightarrow> None | Some v \<Rightarrow> v)"

definition logDiff :: "obj \<Rightarrow> obj \<Rightarrow> error + unit" where
  "logDiff before after = diff_rows (map (\<lambda>(k, v). (v, get_prop after k)) before)"

text \<open>
  \<^verbatim>\<open>logDiff\<close> on the header: \<^verbatim>\<open>origHeader\<close> is the copy made before the key identifier was
  set. The copy of an array has the indices as names, and under an index the array still
  has the element it had. A primitive header does not get here: the assignment before has
  raised.
\<close>

fun log_header :: "string \<Rightarrow> json \<Rightarrow> error + unit" where
  "log_header kid (JObj ps) = logDiff (to_obj ps) (to_obj (AList.update ''kid'' (JStr kid) ps))"
| "log_header kid (JArr xs) = diff_rows (map (\<lambda>x. (Some x, Some x)) xs)"
| "log_header kid j = Inr ()"

text \<open>
  The common shape of \<^verbatim>\<open>swapIdToken\<close> and \<^verbatim>\<open>swapAccessToken\<close>: decode, set the key
  identifier, log the header, parse the payload, assign the claims, log them, sign.
  \<^verbatim>\<open>jws.decode\<close> gives \<^verbatim>\<open>null\<close> for a string that is not a token, and the next property
  read raises. The payload is what \<^verbatim>\<open>JSON.parse\<close> gets to read, and \<^verbatim>\<open>JSON.parse\<close> reads
  its argument as a string: for a token whose header has \<^verbatim>\<open>typ\<close> \<^verbatim>\<open>JWT\<close> the library hands
  over the payload already parsed, the string of an object is \<^verbatim>\<open>[object Object]\<close>, and
  \<^verbatim>\<open>JSON.parse\<close> raises on it.
\<close>

definition swap_token :: "env \<Rightarrow> (obj \<Rightarrow> obj) \<Rightarrow> string \<Rightarrow> error + string" where
  "swap_token e assign token =
     (case jws_decode e token of
        None \<Rightarrow> Inl TypeError
      | Some (header, payload) \<Rightarrow>
          and_then (set_kid (keys_kid e) header) (\<lambda>header'.
          and_then (log_header (keys_kid e) header) (\<lambda>logged.
            (case json_parse e payload of
               None \<Rightarrow> Inl SyntaxError
             | Some (JObj ps) \<Rightarrow>
                 and_then (logDiff (to_obj ps) (assign (to_obj ps))) (\<lambda>logged.
                   jws_sign e header' (JObj (stringify_props (assign (to_obj ps))))
                     (keys_privatePem e))
             | Some (JArr xs) \<Rightarrow>
                 and_then (diff_rows (map (\<lambda>x. (Some x, Some x)) xs)) (\<lambda>logged.
                   jws_sign e header' (JArr xs) (keys_privatePem e))
             | Some j \<Rightarrow> Inl TypeError))))"

definition swapIdToken :: "env \<Rightarrow> nat \<Rightarrow> string \<Rightarrow> patch \<Rightarrow> error + string" where
  "swapIdToken e site idToken d = swap_token e (id_claims e site d) idToken"

definition swapAccessToken :: "env \<Rightarrow> nat \<Rightarrow> string \<Rightarrow> patch \<Rightarrow> error + string" where
  "swapAccessToken e site accessToken d = swap_token e (access_claims e site d) accessToken"

section \<open>The response reconstructor\<close>

subsection \<open>Headers\<close>

text \<open>
  The cached headers are walked in the order of \<^verbatim>\<open>Object.keys\<close>, so they are a list of
  names and values here. The loop fills the new object \<^verbatim>\<open>mapped\<close>; the cached object is
  only read.
\<close>

type_synonym cached_headers = "(string \<times> hval) list"

fun map_headers ::
  "(string \<Rightarrow> error + string) \<Rightarrow> cached_headers \<Rightarrow> cached_headers \<Rightarrow> error + cached_headers" where
  "map_headers f mapped [] = Inr mapped"
| "map_headers f mapped ((key, Str s) # rest) =
     and_then (f s) (\<lambda>s'. map_headers f (AList.update key (Str s') mapped) rest)"
| "map_headers f mapped ((key, Arr xs) # rest) =
     map_headers f (AList.update key (Arr xs) mapped) rest"

text \<open>
  The redirect branch: \<^verbatim>\<open>mapped.location.replace('state=STATE', ...)\<close>. Without a location
  header, or with an array, the call raises.
\<close>

definition restore_state :: "'a rdata_scheme \<Rightarrow> cached_headers \<Rightarrow> error + cached_headers" where
  "restore_state d mapped =
     (if isRedirectCallback d then
        (case map_of mapped ''location'' of
           Some (Str l) \<Rightarrow>
             Inr (AList.update ''location''
                    (Str (replace_str l ''state=STATE'' (''state='' @ template (state d)))) mapped)
         | _ \<Rightarrow> Inl TypeError)
      else Inr mapped)"

definition no_cache_response :: "cached_headers \<Rightarrow> cached_headers" where
  "no_cache_response mapped =
     AList.delete ''last-modified''
       (AList.delete ''etag''
          (AList.update ''pragma'' (Str ''no-cache'')
             (AList.update ''cache-control'' (Str ''no-cache, no-store'') mapped)))"

definition mapCachedHeadersToResponse ::
  "env \<Rightarrow> cached_headers \<Rightarrow> 'a rdata_scheme \<Rightarrow> bool \<Rightarrow> error + cached_headers" where
  "mapCachedHeadersToResponse e headers d record =
     and_then (map_headers (\<lambda>v. replaceUrls e v d) [] headers)
       (\<lambda>mapped. and_then (restore_state d mapped) (\<lambda>mapped'. Inr (no_cache_response mapped')))"








subsection \<open>Body\<close>

text \<open>
  The three markers: \<^verbatim>\<open>/data.id_token = '([^']+)'/\<close>, \<^verbatim>\<open>/"access_token":"([^"]+)"/\<close> and
  \<^verbatim>\<open>/"id_token":"([^"]+)"/\<close>. The dot of the first one is not escaped.
\<close>

definition quoted_rx :: "rx \<Rightarrow> char \<Rightarrow> rx" where
  "quoted_rx marker q = Seq marker (Seq (Grp 1 (Rep 1 None (NotC q))) (Atom (Lit q)))"

definition id_token_js_rx :: rx where
  "id_token_js_rx =
     quoted_rx (Seq (lits ''data'') (Seq (Atom Dot) (lits (''id_token = '' @ [CHR 0x27])))) (CHR 0x27)"

definition access_token_rx :: rx where
  "access_token_rx =
     quoted_rx (lits ([CHR 0x22] @ ''access_token'' @ [CHR 0x22] @ '':'' @ [CHR 0x22])) (CHR 0x22)"

definition id_token_rx :: rx where
  "id_token_rx =
     quoted_rx (lits ([CHR 0x22] @ ''id_token'' @ [CHR 0x22] @ '':'' @ [CHR 0x22])) (CHR 0x22)"

text \<open>
  \<^verbatim>\<open>s.match(re)[1]\<close>: \<^verbatim>\<open>match\<close> gives \<^verbatim>\<open>null\<close> when the pattern is nowhere in the text,
  and the index raises. (The group of the three markers takes part in every match, so the
  last case does not arise.)
\<close>

definition match_group :: "rx \<Rightarrow> string \<Rightarrow> error + string" where
  "match_group r s =
     (case search r [] s of
        None \<Rightarrow> Inl TypeError
      | Some (pre, m, post, cs) \<Rightarrow> (case cs 1 of None \<Rightarrow> Inl TypeError | Some g \<Rightarrow> Inr g))"

definition issuer :: "'a rdata_scheme \<Rightarrow> string" where
  "issuer d = proxy d @ ''/oauth2/default''"

definition token_patch :: "'a rdata_scheme \<Rightarrow> string option \<Rightarrow> patch" where
  "token_patch d h = \<lparr>patch_nonce = nonce d, patch_iss = issuer d, patch_at_hash = h\<rparr>"

text \<open>The branch for \<^verbatim>\<open>okta_post_message\<close>: the ID token, then the access token.\<close>

definition swap_post_message :: "env \<Rightarrow> 'a rdata_scheme \<Rightarrow> string \<Rightarrow> error + string" where
  "swap_post_message e d newChunk =
     and_then (match_group id_token_js_rx newChunk) (\<lambda>idToken.
     and_then (swapIdToken e 0 idToken (token_patch d None)) (\<lambda>newIdToken.
     (let chunk1 = replace_str newChunk idToken newIdToken in
      and_then (match_group access_token_rx chunk1) (\<lambda>accessToken.
      and_then (swapAccessToken e 1 accessToken (token_patch d None)) (\<lambda>newAccessToken.
      Inr (replace_str chunk1 accessToken newAccessToken))))))"

text \<open>The token endpoint while recording: the ID token only.\<close>

definition swap_token_record :: "env \<Rightarrow> 'a rdata_scheme \<Rightarrow> string \<Rightarrow> error + string" where
  "swap_token_record e d newChunk =
     and_then (match_group id_token_rx newChunk) (\<lambda>idToken.
     and_then (swapIdToken e 2 idToken (token_patch d None)) (\<lambda>newIdToken.
     Inr (replace_str newChunk idToken newIdToken)))"

text \<open>
  The token endpoint during playback: the access token, its hash, the ID token. The
  result keeps the two new tokens beside the new body, so that theorems can speak of them;
  the function of the source returns the body.
\<close>

definition swap_token_playback ::
  "env \<Rightarrow> 'a rdata_scheme \<Rightarrow> string \<Rightarrow> error + string \<times> string \<times> string" where
  "swap_token_playback e d newChunk =
     and_then (match_group access_token_rx newChunk) (\<lambda>accessToken.
     and_then (swapAccessToken e 3 accessToken (token_patch d None)) (\<lambda>newAccessToken.
     (let chunk1 = replace_str newChunk accessToken newAccessToken;
          atHash = tokenHash_generate e newAccessToken
      in and_then (match_group id_token_rx chunk1) (\<lambda>idToken.
         and_then (swapIdToken e 4 idToken (token_patch d (Some atHash))) (\<lambda>newIdToken.
         Inr (newAccessToken, newIdToken, replace_str chunk1 idToken newIdToken))))))"

definition post_message_step :: "env \<Rightarrow> 'a rdata_scheme \<Rightarrow> string \<Rightarrow> error + string" where
  "post_message_step e d newChunk =
     (if isAuthorizeReq d \<and> responseMode d = QStr ''okta_post_message''
      then swap_post_message e d newChunk else Inr newChunk)"

definition token_step :: "env \<Rightarrow> 'a rdata_scheme \<Rightarrow> bool \<Rightarrow> string \<Rightarrow> error + string" where
  "token_step e d record newChunk =
     (if isTokenReq d then
        (if record then swap_token_record e d newChunk
         else and_then (swap_token_playback e d newChunk)
                (\<lambda>(newAccessToken, newIdToken, chunk2). Inr chunk2))
      else Inr newChunk)"

definition mapCachedBodyToResponse ::
  "env \<Rightarrow> string \<Rightarrow> 'a rdata_scheme \<Rightarrow> bool \<Rightarrow> error + string" where
  "mapCachedBodyToResponse e chunk d record =
     and_then (and_then (replaceUrls e chunk d) (post_message_step e d)) (token_step e d record)"

section \<open>Observations\<close>

text \<open>A header of the request after normalization, or the exception.\<close>

definition header_after :: "env \<Rightarrow> request \<Rightarrow> bool \<Rightarrow> string \<Rightarrow> error + hval option" where
  "header_after e req record k =
     (case mapRequestToCache e req record of
        Inl err \<Rightarrow> Inl err
      | Inr (r, d) \<Rightarrow> Inr (req_headers r k))"

fun is_str :: "hval option \<Rightarrow> bool" where
  "is_str (Some (Str s)) = True"
| "is_str v = False"

fun is_arr :: "hval option \<Rightarrow> bool" where
  "is_arr (Some (Arr xs)) = True"
| "is_arr v = False"

text \<open>The url of the request after normalization, and the Session Extract.\<close>

definition url_after :: "env \<Rightarrow> request \<Rightarrow> bool \<Rightarrow> error + string" where
  "url_after e req record = and_then (mapRequestToCache e req record) (\<lambda>(r, d). Inr (req_url r))"

definition extract_after :: "env \<Rightarrow> request \<Rightarrow> bool \<Rightarrow> error + data" where
  "extract_after e req record = and_then (mapRequestToCache e req record) (\<lambda>(r, d). Inr d)"


text \<open>No property of the object holds an object: \<^verbatim>\<open>logDiff\<close> can print every value.\<close>

definition flat :: "(string \<times> json) list \<Rightarrow> bool" where
  "flat ps = list_all (\<lambda>(k, v). diffable (Some v)) ps"



text \<open>
  The requests on which normalization does not raise: a preflight request names its
  request headers in one string, and the cookie is not an array.
\<close>

definition normalizable :: "request \<Rightarrow> bool" where
  "normalizable req =
     ((truthy (req_headers req ''access-control-request-method'')
         \<longrightarrow> is_str (req_headers req ''access-control-request-headers''))
      \<and> \<not> is_arr (req_headers req ''cookie''))"

text \<open>
  The headers that normalization arrives at before the flow branches, written without the
  exceptions: on a normalizable request this is what \<open>norm_headers\<close> returns.
\<close>

fun str_of :: "hval option \<Rightarrow> string" where
  "str_of (Some (Str s)) = s"
| "str_of v = []"

definition preflight_headers :: "headers \<Rightarrow> headers" where
  "preflight_headers h =
     (if h ''content-length'' = Some (Str ''0'') then h(''content-length'' := None) else h)
       (''access-control-request-headers'' \<mapsto>
          Str (norm_request_headers (str_of (h ''access-control-request-headers''))))"

definition cookie_headers :: "headers \<Rightarrow> headers" where
  "cookie_headers h = h(''cookie'' \<mapsto> Str (replace_all adrum_rx (str_of (h ''cookie'')) []))"

definition early_headers :: "request \<Rightarrow> headers" where
  "early_headers req =
     norm_content_type (truthy (req_headers req ''access-control-request-method''))
       (req_url req) (norm_accept (force_fixed (delete_volatile (req_headers req))))"

definition normal_headers :: "request \<Rightarrow> headers" where
  "normal_headers req =
     no_cache (cookie_headers
       (if truthy (req_headers req ''access-control-request-method'')
        then preflight_headers (early_headers req) else early_headers req))"

text \<open>A claim of a token, read back through the decoder.\<close>

definition decoded_claim :: "env \<Rightarrow> string \<Rightarrow> string \<Rightarrow> json option" where
  "decoded_claim e token k =
     (case jws_decode e token of
        None \<Rightarrow> None
      | Some (header, payload) \<Rightarrow>
          (case json_parse e payload of Some (JObj ps) \<Rightarrow> map_of ps k | _ \<Rightarrow> None))"

definition decoded_header :: "env \<Rightarrow> string \<Rightarrow> string \<Rightarrow> json option" where
  "decoded_header e token k =
     (case jws_decode e token of Some (JObj hs, payload) \<Rightarrow> map_of hs k | _ \<Rightarrow> None)"

text \<open>
  What is expected of the token library, where a theorem needs it: a token that
  \<^verbatim>\<open>jws.sign\<close> returns decodes to the header and the payload that were signed; a token
  signed with the private key verifies against the public key under the algorithm of its
  header; a token hash is 22 characters long (128 bits in base64url).
\<close>

definition codec_ok :: "env \<Rightarrow> bool" where
  "codec_ok e =
     (\<forall>h p k t. jws_sign e h p k = Inr t
        \<longrightarrow> (\<exists>s. jws_decode e t = Some (h, s) \<and> json_parse e s = Some p))"

definition keypair_ok :: "env \<Rightarrow> bool" where
  "keypair_ok e =
     (\<forall>hs p t alg. jws_sign e (JObj hs) p (keys_privatePem e) = Inr t
        \<and> map_of hs ''alg'' = Some alg \<longrightarrow> jws_verify e t alg (keys_publicKey e))"



section \<open>Patterns without the engine\<close>


text \<open>
  Replacing every occurrence, as a relation between a text and its rewriting: going from
  left to right, where an occurrence begins it is replaced and the scan goes on behind it;
  where none begins the character is kept. \<open>P w rest\<close> says that \<open>w\<close> is an occurrence in
  front of \<open>rest\<close>.
\<close>

inductive rewritten :: "(string \<Rightarrow> string \<Rightarrow> bool) \<Rightarrow> string \<Rightarrow> string \<Rightarrow> string \<Rightarrow> bool"
  for P :: "string \<Rightarrow> string \<Rightarrow> bool" and p :: string where
  rewritten_end: "rewritten P p [] []"
| rewritten_keep:
    "\<forall>w rest. x # xs = w @ rest \<longrightarrow> \<not> P w rest \<Longrightarrow> rewritten P p xs out \<Longrightarrow>
     rewritten P p (x # xs) (x # out)"
| rewritten_swap:
    "x # xs = w @ rest \<Longrightarrow> w \<noteq> [] \<Longrightarrow> P w rest \<Longrightarrow> rewritten P p rest out \<Longrightarrow>
     rewritten P p (x # xs) (p @ out)"








section \<open>An environment for the examples\<close>

text \<open>
  The examples need the outside world to be something definite. \<open>simple_url_parse\<close> reads
  urls of the shape \<^verbatim>\<open>[scheme://host[:port]][/path][?query]\<close> and \<open>simple_querystring_parse\<close>
  query strings without escapes, as Node does on these. The token library is a table over
  seven tokens: four recorded ones and the three that the swaps of the examples produce.
\<close>

definition before_char :: "char \<Rightarrow> string \<Rightarrow> string" where
  "before_char c s = takeWhile (\<lambda>x. x \<noteq> c) s"

definition after_char :: "char \<Rightarrow> string \<Rightarrow> string option" where
  "after_char c s = (case dropWhile (\<lambda>x. x \<noteq> c) s of [] \<Rightarrow> None | x # r \<Rightarrow> Some r)"

definition simple_url_parse :: "string \<Rightarrow> parsed_url" where
  "simple_url_parse u =
     (let q = after_char CHR ''?'' u; base = before_char CHR ''?'' u in
      case indexOf base ''://'' of
        None \<Rightarrow> \<lparr>protocol = None, hostname = None, port = None, host = None, query = q\<rparr>
      | Some i \<Rightarrow>
          (let authority = before_char CHR ''/'' (drop (i + 3) base) in
           \<lparr>protocol = Some (take (i + 1) base),
            hostname = Some (before_char CHR '':'' authority),
            port = after_char CHR '':'' authority,
            host = Some authority, query = q\<rparr>))"

definition query_pairs :: "string \<Rightarrow> (string \<times> string) list" where
  "query_pairs q =
     map (\<lambda>kv. (before_char CHR ''='' kv,
                 case after_char CHR ''='' kv of None \<Rightarrow> [] | Some v \<Rightarrow> v))
       (split_str CHR ''&'' q)"

definition simple_querystring_parse :: "string option \<Rightarrow> string \<Rightarrow> qval" where
  "simple_querystring_parse q k =
     (case q of
        None \<Rightarrow> QUndef
      | Some s \<Rightarrow>
          (case map snd (filter (\<lambda>p. fst p = k) (query_pairs s)) of
             [] \<Rightarrow> QUndef
           | [v] \<Rightarrow> QStr v
           | vs \<Rightarrow> QArr vs))"

definition recorded_header :: json where
  "recorded_header = JObj [(''alg'', JStr ''RS256''), (''kid'', JStr ''recorded-key'')]"

definition mock_header :: json where
  "mock_header = JObj [(''alg'', JStr ''RS256''), (''kid'', JStr ''mock-key'')]"

definition recorded_id_claims :: json where
  "recorded_id_claims =
     JObj [(''sub'', JStr ''user1''), (''nonce'', JStr ''recorded-nonce''),
           (''iss'', JStr ''https://upstream.example.com:1802/oauth2/default''),
           (''at_hash'', JStr ''recorded-hash''), (''exp'', JNum 1)]"

definition recorded_access_claims :: json where
  "recorded_access_claims =
     JObj [(''sub'', JStr ''user1''),
           (''iss'', JStr ''https://upstream.example.com:1802/oauth2/default''),
           (''exp'', JNum 1)]"

definition swapped_access_claims :: json where
  "swapped_access_claims =
     JObj [(''sub'', JStr ''user1''), (''iss'', JStr ''http://localhost:7777/oauth2/default''),
           (''exp'', JNum 1500003600), (''nonce'', JStr ''n-1'')]"

definition playback_id_claims :: json where
  "playback_id_claims =
     JObj [(''sub'', JStr ''user1''), (''nonce'', JStr ''n-1''),
           (''iss'', JStr ''http://localhost:7777/oauth2/default''),
           (''at_hash'', JStr ''AT1.SWAPPED.SIGAAAAAAA''), (''exp'', JNum 1500003600)]"

definition record_id_claims :: json where
  "record_id_claims =
     JObj [(''sub'', JStr ''user1''), (''nonce'', JStr ''n-1''),
           (''iss'', JStr ''http://localhost:7777/oauth2/default''),
           (''exp'', JNum 1500003600)]"

text \<open>
  Two more recorded ID tokens: one with the \<^verbatim>\<open>address\<close> claim of OpenID Connect, which is
  an object, and one whose header has \<^verbatim>\<open>typ\<close> \<^verbatim>\<open>JWT\<close>, so that the library hands over its
  claims as an object.
\<close>

definition address_id_claims :: json where
  "address_id_claims =
     JObj [(''sub'', JStr ''user1''), (''address'', JObj [(''locality'', JStr ''Berlin'')]),
           (''nonce'', JStr ''recorded-nonce''),
           (''iss'', JStr ''https://upstream.example.com:1802/oauth2/default''),
           (''exp'', JNum 1)]"

definition typed_header :: json where
  "typed_header =
     JObj [(''alg'', JStr ''RS256''), (''typ'', JStr ''JWT''), (''kid'', JStr ''recorded-key'')]"

definition table_decode :: "string \<Rightarrow> (json \<times> string) option" where
  "table_decode t =
     map_of [(''ID0.RECORDED.SIG'', (recorded_header, ''recorded id claims'')),
             (''AT0.RECORDED.SIG'', (recorded_header, ''recorded access claims'')),
             (''AT1.SWAPPED.SIG'', (mock_header, ''swapped access claims'')),
             (''ID1.PLAYBACK.SIG'', (mock_header, ''playback id claims'')),
             (''ID2.RECORD.SIG'', (mock_header, ''record id claims'')),
             (''ID3.ADDRESS.SIG'', (recorded_header, ''address id claims'')),
             (''ID4.TYPED.SIG'', (typed_header, ''[object Object]''))] t"

definition table_parse :: "string \<Rightarrow> json option" where
  "table_parse s =
     map_of [(''recorded id claims'', recorded_id_claims),
             (''recorded access claims'', recorded_access_claims),
             (''swapped access claims'', swapped_access_claims),
             (''playback id claims'', playback_id_claims),
             (''record id claims'', record_id_claims),
             (''address id claims'', address_id_claims)] s"

definition table_sign :: "json \<Rightarrow> json \<Rightarrow> string \<Rightarrow> error + string" where
  "table_sign h p k =
     (if h = mock_header \<and> k = ''PRIVATE PEM'' then
        (if p = swapped_access_claims then Inr ''AT1.SWAPPED.SIG''
         else if p = playback_id_claims then Inr ''ID1.PLAYBACK.SIG''
         else if p = record_id_claims then Inr ''ID2.RECORD.SIG''
         else Inl LibError)
      else Inl LibError)"

definition table_verify :: "string \<Rightarrow> json \<Rightarrow> string \<Rightarrow> bool" where
  "table_verify t alg k =
     (t \<in> set [''AT1.SWAPPED.SIG'', ''ID1.PLAYBACK.SIG'', ''ID2.RECORD.SIG'']
      \<and> alg = JStr ''RS256'' \<and> k = ''PUBLIC KEY'')"

definition example_env :: env where
  "example_env =
     \<lparr>url_parse = simple_url_parse, querystring_parse = simple_querystring_parse,
      jws_decode = table_decode, json_parse = table_parse, jws_sign = table_sign,
      jws_verify = table_verify,
      tokenHash_generate = (\<lambda>t. take 22 (t @ replicate 22 CHR ''A'')),
      date_getTime = (\<lambda>site. 1500000000000),
      keys_kid = ''mock-key'', keys_privatePem = ''PRIVATE PEM'',
      keys_publicKey = ''PUBLIC KEY'', keys_accessToken = ''recorded-access-token''\<rparr>"

text \<open>The Endpoint Configuration of the examples, with an empty Session Extract.\<close>

definition example_data :: rdata where
  "example_data =
     \<lparr>isAuthorizeReq = False, responseMode = QUndef, state = QUndef, nonce = QStr ''n-1'',
      cookie = None, isRedirectCallback = False, isTokenReq = False,
      proxy = ''http://localhost:7777'', proxied = ''https://upstream.example.com:1802'',
      cdn = ''https://op1static.oktacdn.com''\<rparr>"

text \<open>The Session Extract of a request, joined with the Endpoint Configuration.\<close>

definition with_endpoints :: "data \<Rightarrow> rdata \<Rightarrow> rdata" where
  "with_endpoints d cfg =
     \<lparr>isAuthorizeReq = isAuthorizeReq d, responseMode = responseMode d, state = state d,
      nonce = nonce d, cookie = cookie d, isRedirectCallback = isRedirectCallback d,
      isTokenReq = isTokenReq d, proxy = proxy cfg, proxied = proxied cfg, cdn = cdn cfg\<rparr>"

text \<open>
  The round trip of the state. The Session Extract of an authorize request, marked as a
  redirect callback and joined with the Endpoint Configuration, serves to reconstruct the
  headers of the redirect; the result is the \<^verbatim>\<open>location\<close> header that the client receives.
\<close>

definition redirect_location ::
  "env \<Rightarrow> bool \<Rightarrow> request \<Rightarrow> rdata \<Rightarrow> cached_headers \<Rightarrow> error + hval option" where
  "redirect_location e record req cfg headers =
     and_then (mapRequestToCache e req record) (\<lambda>(r, d).
     and_then (mapCachedHeadersToResponse e headers
                 ((with_endpoints d cfg)\<lparr>isRedirectCallback := True\<rparr>) record) (\<lambda>mapped.
     Inr (map_of mapped ''location'')))"


definition redirect_headers :: cached_headers where
  "redirect_headers =
     [(''location'', Str ''https://upstream.example.com:1802/cb?code=c1&state=STATE''),
      (''etag'', Str ''W/1''), (''set-cookie'', Arr [''sid=1'', ''t=2''])]"




definition token_request_data :: rdata where
  "token_request_data = example_data\<lparr>isTokenReq := True\<rparr>"



definition preflight_request :: "string \<Rightarrow> request" where
  "preflight_request v =
     \<lparr>req_method = ''OPTIONS'', req_url = ''/oauth2/default/v1/userinfo'',
      req_headers = [''access-control-request-method'' \<mapsto> Str ''GET'',
                     ''access-control-request-headers'' \<mapsto> Str v,
                     ''origin'' \<mapsto> Str ''http://localhost:8080'']\<rparr>"

definition authorize_request :: "string \<Rightarrow> string \<Rightarrow> request" where
  "authorize_request s c =
     \<lparr>req_method = ''GET'',
      req_url = ''/oauth2/v1/authorize?response_type=code&state='' @ s @ ''&nonce=n-1'',
      req_headers = [''accept'' \<mapsto> Str ''text/html'', ''cookie'' \<mapsto> Str c]\<rparr>"

definition plain_request :: "string \<Rightarrow> headers \<Rightarrow> request" where
  "plain_request u h = \<lparr>req_method = ''GET'', req_url = u, req_headers = h\<rparr>"


section \<open>Basic facts\<close>

lemma and_then_Inl [simp]: "and_then (Inl err) f = Inl err"
  by (simp add: and_then_def)

lemma and_then_Inr [simp]: "and_then (Inr x) f = f x"
  by (simp add: and_then_def)


lemma is_arr_iff: "is_arr v \<longleftrightarrow> (\<exists>xs. v = Some (Arr xs))"
  by (cases v rule: is_arr.cases) auto

lemma is_str_iff: "is_str v \<longleftrightarrow> (\<exists>s. v = Some (Str s))"
  by (cases v rule: is_str.cases) auto

section \<open>The request normalizer: headers\<close>

subsection \<open>Each step touches its own headers only\<close>

lemma delete_volatile_other:
  "k \<notin> set [''upgrade-insecure-requests'', ''x-okta-user-agent-extended'', ''if-none-match'',
     ''if-modified-since'', ''expect'', ''referer''] \<Longrightarrow> delete_volatile h k = h k"
  by (simp add: delete_volatile_def)

lemma force_fixed_other:
  "k \<notin> set [''user-agent'', ''connection'', ''accept-language'', ''accept-encoding''] \<Longrightarrow>
   force_fixed h k = h k"
  by (simp add: force_fixed_def)

lemma norm_accept_other: "k \<noteq> ''accept'' \<Longrightarrow> norm_accept h k = h k"
  by (simp add: norm_accept_def split: option.splits)

lemma norm_content_type_other: "k \<noteq> ''content-type'' \<Longrightarrow> norm_content_type p u h k = h k"
  by (simp add: norm_content_type_def)

lemma early_headers_fixed:
  assumes "k \<notin> set [''upgrade-insecure-requests'', ''x-okta-user-agent-extended'',
     ''if-none-match'', ''if-modified-since'', ''expect'', ''referer'']"
    and "k \<notin> set [''user-agent'', ''connection'', ''accept-language'', ''accept-encoding'']"
    and "k \<noteq> ''accept''" and "k \<noteq> ''content-type''"
  shows "early_headers req k = req_headers req k"
  unfolding early_headers_def
  by (simp only: norm_content_type_other [OF assms(4)] norm_accept_other [OF assms(3)]
      force_fixed_other [OF assms(2)] delete_volatile_other [OF assms(1)])

lemma preflight_headers_cookie: "preflight_headers h ''cookie'' = h ''cookie''"
  by (simp add: preflight_headers_def)

lemma flow_headers_other:
  "k \<noteq> ''cookie'' \<Longrightarrow> k \<noteq> ''authorization'' \<Longrightarrow>
   req_headers (fst (flow e record req)) k = req_headers req k"
  by (simp add: flow_def Let_def)

subsection \<open>When normalization raises, and what it returns when it does not\<close>

lemma norm_preflight_eq:
  "norm_preflight h =
     (if is_str (h ''access-control-request-headers'') then Inr (preflight_headers h)
      else Inl TypeError)"
  by (cases "h ''access-control-request-headers''" rule: is_str.cases)
     (simp_all add: norm_preflight_def preflight_headers_def Let_def)

lemma norm_cookie_eq:
  "norm_cookie h = (if is_arr (h ''cookie'') then Inl TypeError else Inr (cookie_headers h))"
  by (cases "h ''cookie''" rule: is_arr.cases) (simp_all add: norm_cookie_def cookie_headers_def)

lemma norm_headers_eq:
  "norm_headers req = (if normalizable req then Inr (normal_headers req) else Inl TypeError)"
proof -
  have a: "early_headers req ''access-control-request-headers''
             = req_headers req ''access-control-request-headers''"
    and c: "early_headers req ''cookie'' = req_headers req ''cookie''"
    by (simp_all add: early_headers_fixed)
  show ?thesis
    unfolding norm_headers_def Let_def early_headers_def [symmetric]
    by (simp add: norm_preflight_eq norm_cookie_eq normalizable_def normal_headers_def a c
        preflight_headers_cookie)
qed

lemma mapRequestToCache_eq:
  "mapRequestToCache e req record =
     (if normalizable req then Inr (flow e record (req\<lparr>req_headers := normal_headers req\<rparr>))
      else Inl TypeError)"
  by (simp add: mapRequestToCache_def norm_headers_eq)

lemma header_after_eq:
  "header_after e req record k =
     (if normalizable req
      then Inr (req_headers (fst (flow e record (req\<lparr>req_headers := normal_headers req\<rparr>))) k)
      else Inl TypeError)"
  by (simp add: header_after_def mapRequestToCache_eq split: prod.splits)

subsection \<open>The preflight headers\<close>

text \<open>
  C3 (amended). On a preflight request whose \<^verbatim>\<open>access-control-request-headers\<close> is a string
  (and whose cookie is not an array, so that the call returns), the header becomes: the value
  split at the commas, each entry trimmed, the entries equal to \<^verbatim>\<open>accept\<close> or \<^verbatim>\<open>origin\<close>
  removed, the rest sorted by code units and joined with a comma and a space. Nothing is
  put into lower case: the comparison with \<^verbatim>\<open>accept\<close> and \<^verbatim>\<open>origin\<close> is exact.
\<close>

theorem preflight_request_headers:
  assumes "truthy (req_headers req ''access-control-request-method'')"
    and "req_headers req ''access-control-request-headers'' = Some (Str v)"
    and "\<not> is_arr (req_headers req ''cookie'')"
  shows "header_after e req record ''access-control-request-headers'' =
           Inr (Some (Str (join '', '' (sort (filter (\<lambda>x. x \<noteq> ''accept'' \<and> x \<noteq> ''origin'')
             (map trim (split_str CHR '','' v)))))))"
proof -
  have n: "normalizable req"
    using assms by (simp add: normalizable_def)
  have "early_headers req ''access-control-request-headers'' = Some (Str v)"
    using assms(2) by (simp add: early_headers_fixed)
  then have "normal_headers req ''access-control-request-headers''
               = Some (Str (norm_request_headers v))"
    using assms(1) by (simp add: normal_headers_def no_cache_def cookie_headers_def
        preflight_headers_def)
  then show ?thesis
    using n by (simp add: header_after_eq flow_headers_other norm_request_headers_def
        sort_strings_def)
qed

text \<open>In lower case the example of the specification comes out as it says.\<close>

theorem preflight_request_headers_witness:
  "truthy (req_headers (preflight_request ''origin, x-foo, accept'') ''access-control-request-method'')
   \<and> \<not> is_arr (req_headers (preflight_request ''origin, x-foo, accept'') ''cookie'')
   \<and> header_after example_env (preflight_request ''origin, x-foo, accept'') False
         ''access-control-request-headers'' = Inr (Some (Str ''x-foo''))"
proof -
  let ?req = "preflight_request ''origin, x-foo, accept''"
  have a: "truthy (req_headers ?req ''access-control-request-method'')"
    by (simp add: preflight_request_def)
  have b: "req_headers ?req ''access-control-request-headers''
             = Some (Str ''origin, x-foo, accept'')"
    by (simp add: preflight_request_def)
  have c: "\<not> is_arr (req_headers ?req ''cookie'')"
    by (simp add: preflight_request_def)
  have d: "join '', '' (sort (filter (\<lambda>x. x \<noteq> ''accept'' \<and> x \<noteq> ''origin'')
             (map trim (split_str CHR '','' ''origin, x-foo, accept'')))) = ''x-foo''"
    by code_simp
  from preflight_request_headers [OF a b c, of example_env False] a c show ?thesis
    by (simp only: d simp_thms)
qed

text \<open>
  C3 as stated fails on its own example: \<^verbatim>\<open>Origin, X-Foo, Accept\<close> keeps all three
  entries, since \<^verbatim>\<open>Origin\<close> is not \<^verbatim>\<open>origin\<close>, and the result is not \<^verbatim>\<open>x-foo\<close>.
\<close>

theorem preflight_mixed_case_counterexample:
  "header_after example_env (preflight_request ''Origin, X-Foo, Accept'') False
     ''access-control-request-headers'' = Inr (Some (Str ''Accept, Origin, X-Foo''))
   \<and> header_after example_env (preflight_request ''Origin, X-Foo, Accept'') False
     ''access-control-request-headers'' \<noteq> Inr (Some (Str ''x-foo''))"
  by code_simp

subsection \<open>The accept header\<close>

lemma norm_accept_accept:
  "norm_accept h ''accept'' =
     (case h ''accept'' of
        None \<Rightarrow> None
      | Some v \<Rightarrow>
          if \<not> truthy (Some v) then Some v
          else if hval_includes v ''text/html'' then Some (Str accept_html)
          else if hval_includes v ''json'' then Some (Str ''application/json'')
          else Some (Str ''*/*''))"
  by (simp add: norm_accept_def split: option.splits)

lemma normal_headers_accept:
  "normal_headers req ''accept'' =
     (case req_headers req ''accept'' of
        None \<Rightarrow> None
      | Some v \<Rightarrow>
          if \<not> truthy (Some v) then Some v
          else if hval_includes v ''text/html'' then Some (Str accept_html)
          else if hval_includes v ''json'' then Some (Str ''application/json'')
          else Some (Str ''*/*''))"
proof -
  have "normal_headers req ''accept'' = early_headers req ''accept''"
    by (simp add: normal_headers_def no_cache_def cookie_headers_def preflight_headers_def)
  also have "\<dots> = norm_accept (force_fixed (delete_volatile (req_headers req))) ''accept''"
    by (simp add: early_headers_def norm_content_type_other)
  also have "force_fixed (delete_volatile (req_headers req)) ''accept'' = req_headers req ''accept''"
    by (simp add: force_fixed_other delete_volatile_other)
  then have "norm_accept (force_fixed (delete_volatile (req_headers req))) ''accept''
               = norm_accept (req_headers req) ''accept''"
    by (simp add: norm_accept_accept)
  finally show ?thesis
    by (simp add: norm_accept_accept)
qed

text \<open>
  C10. On a request that normalization accepts: without an \<^verbatim>\<open>accept\<close> header the
  normalized request has none either; the normalized header is \<^verbatim>\<open>*/*\<close> only if the
  request had a truthy \<^verbatim>\<open>accept\<close> header that names neither \<^verbatim>\<open>text/html\<close> nor \<^verbatim>\<open>json\<close>; and
  a request with an \<^verbatim>\<open>accept\<close> header keeps one, so its cache key differs from that of the
  request without.
\<close>

theorem accept_absent_stays_absent:
  assumes "normalizable req"
  shows "(req_headers req ''accept'' = None \<longrightarrow> header_after e req record ''accept'' = Inr None)
    \<and> (header_after e req record ''accept'' = Inr (Some (Str ''*/*'')) \<longrightarrow>
         (\<exists>v. req_headers req ''accept'' = Some v \<and> truthy (Some v)
            \<and> \<not> hval_includes v ''text/html'' \<and> \<not> hval_includes v ''json''))
    \<and> (req_headers req ''accept'' \<noteq> None \<longrightarrow> header_after e req record ''accept'' \<noteq> Inr None)"
proof -
  have h: "header_after e req record ''accept'' = Inr (normal_headers req ''accept'')"
    using assms by (simp add: header_after_eq flow_headers_other)
  have "truthy (Some v) \<Longrightarrow> v \<noteq> Str ''*/*'' \<or> (\<not> hval_includes v ''text/html'' \<and> \<not> hval_includes v ''json'')"
    for v
    by (cases v) (auto simp: includes_str_def)
  then show ?thesis
    unfolding h normal_headers_accept
    by (auto simp: accept_html_def split: option.splits)
qed

theorem accept_absent_stays_absent_witness:
  "normalizable (plain_request ''/app.js'' Map.empty)
   \<and> req_headers (plain_request ''/app.js'' Map.empty) ''accept'' = None
   \<and> header_after example_env (plain_request ''/app.js'' Map.empty) False ''accept'' = Inr None"
proof -
  have n: "normalizable (plain_request ''/app.js'' Map.empty)"
    by (simp add: normalizable_def plain_request_def)
  have a: "req_headers (plain_request ''/app.js'' Map.empty) ''accept'' = None"
    by (simp add: plain_request_def)
  from accept_absent_stays_absent [OF n, of example_env False] n a show ?thesis
    by simp
qed

section \<open>The token swapper: claims\<close>

lemma stringify_to_obj: "stringify_props (to_obj ps) = ps"
  by (induction ps) (auto simp: to_obj_def)

lemma stringify_update_same:
  "map_of (stringify_props (AList.update k (Some v) ob)) k = Some v"
  by (induction ob rule: stringify_props.induct) auto

lemma stringify_update_other:
  "k \<noteq> k' \<Longrightarrow>
   map_of (stringify_props (AList.update k' x ob)) k = map_of (stringify_props ob) k"
  by (induction ob rule: stringify_props.induct) (auto split: option.splits, (cases x; simp)+)

lemma stringify_keys: "fst ` set (stringify_props ob) \<subseteq> fst ` set ob"
  by (induction ob rule: stringify_props.induct) auto

lemma stringify_update_undefined:
  "distinct (map fst ob) \<Longrightarrow> map_of (stringify_props (AList.update k None ob)) k = None"
proof (induction ob rule: stringify_props.induct)
  case 1
  then show ?case by simp
next
  case (2 k' ps)
  then show ?case
    using stringify_keys [of ps] by (auto simp: map_of_eq_None_iff)
next
  case (3 k' v ps)
  then show ?case
    using stringify_keys [of ps] by (auto simp: map_of_eq_None_iff)
qed

lemma map_of_update_kid:
  "map_of (AList.update ''kid'' v hs) k = (if k = ''kid'' then Some v else map_of hs k)"
  by (simp add: update_conv')


lemma id_claims_lookup:
  "map_of (stringify_props (id_claims e site d ob)) ''exp'' = Some (JNum (expiry e site))"
  "map_of (stringify_props (id_claims e site d ob)) ''iss'' = Some (JStr (patch_iss d))"
  "patch_nonce d = QStr n \<Longrightarrow>
   map_of (stringify_props (id_claims e site d ob)) ''nonce'' = Some (JStr n)"
  "patch_at_hash d = Some h \<Longrightarrow> h \<noteq> ''undefined'' \<Longrightarrow>
   map_of (stringify_props (id_claims e site d ob)) ''at_hash'' = Some (JStr h)"
  by (simp_all add: id_claims_def Let_def stringify_update_same stringify_update_other)

lemma id_claims_drops_at_hash:
  "patch_at_hash d = None \<Longrightarrow> distinct (map fst ob) \<Longrightarrow>
   map_of (stringify_props (id_claims e site d ob)) ''at_hash'' = None"
  by (simp add: id_claims_def Let_def stringify_update_other stringify_update_undefined
      distinct_update)

lemma access_claims_lookup:
  "map_of (stringify_props (access_claims e site d ob)) ''exp'' = Some (JNum (expiry e site))"
  "map_of (stringify_props (access_claims e site d ob)) ''iss'' = Some (JStr (patch_iss d))"
  "patch_nonce d = QStr n \<Longrightarrow>
   map_of (stringify_props (access_claims e site d ob)) ''nonce'' = Some (JStr n)"
  by (simp_all add: access_claims_def Let_def stringify_update_same stringify_update_other)

lemma get_prop_to_obj: "get_prop (to_obj ps) k = map_of ps k"
  by (induction ps) (auto simp: get_prop_def to_obj_def)

lemma flat_lookup: "flat ps \<Longrightarrow> diffable (map_of ps k)"
  by (induction ps) (auto simp: flat_def)

lemma get_prop_update:
  "get_prop (AList.update k v ob) k' = (if k' = k then v else get_prop ob k')"
  by (simp add: get_prop_def update_conv')

lemma logDiff_flat:
  assumes "flat ps" and "\<And>k. diffable (get_prop after k)"
  shows "logDiff (to_obj ps) after = Inr ()"
proof -
  have "list_all (\<lambda>(b, a). diffable b \<and> diffable a)
          (map (\<lambda>(k, v). (v, get_prop after k)) (to_obj ps))"
    using assms by (auto simp: list_all_iff to_obj_def flat_def)
  then show ?thesis
    by (simp add: logDiff_def diff_rows_def)
qed

lemma log_header_flat: "flat hs \<Longrightarrow> log_header kid (JObj hs) = Inr ()"
proof -
  assume f: "flat hs"
  have "map_of (AList.update ''kid'' (JStr kid) hs) k
          = (if k = ''kid'' then Some (JStr kid) else map_of hs k)" for k
    by (simp add: update_conv')
  then have "diffable (get_prop (to_obj (AList.update ''kid'' (JStr kid) hs)) k)" for k
    using flat_lookup [OF f, of k] by (simp add: get_prop_to_obj)
  with f show ?thesis
    by (simp add: logDiff_flat)
qed

lemma qval_json_diffable: "diffable (qval_json q)"
  by (cases q) simp_all

lemma id_claims_diffable:
  "flat ps \<Longrightarrow> diffable (get_prop (id_claims e site d (to_obj ps)) k)"
  using flat_lookup [of ps k]
  by (cases "patch_at_hash d")
     (simp_all add: id_claims_def Let_def get_prop_update get_prop_to_obj qval_json_diffable)

lemma access_claims_diffable:
  "flat ps \<Longrightarrow> diffable (get_prop (access_claims e site d (to_obj ps)) k)"
  using flat_lookup [of ps k]
  by (simp add: access_claims_def Let_def get_prop_update get_prop_to_obj qval_json_diffable)

lemma swap_token_valid:
  assumes "jws_decode e token = Some (JObj hs, payload)"
    and "json_parse e payload = Some (JObj ps)"
    and "flat hs" and "logDiff (to_obj ps) (assign (to_obj ps)) = Inr ()"
  shows "swap_token e assign token =
           jws_sign e (JObj (AList.update ''kid'' (JStr (keys_kid e)) hs))
             (JObj (stringify_props (assign (to_obj ps)))) (keys_privatePem e)"
  using assms log_header_flat [OF assms(3), of "keys_kid e"]
  by (simp add: swap_token_def del: log_header.simps)

lemma decoded_of_signed:
  assumes "codec_ok e" and "jws_sign e (JObj hs) (JObj cs) k = Inr t"
  shows "decoded_header e t = map_of hs" and "decoded_claim e t = map_of cs"
proof -
  obtain s where "jws_decode e t = Some (JObj hs, s)" "json_parse e s = Some (JObj cs)"
    using assms unfolding codec_ok_def by blast
  then show "decoded_header e t = map_of hs" and "decoded_claim e t = map_of cs"
    by (simp_all add: decoded_header_def decoded_claim_def fun_eq_iff)
qed

text \<open>
  What the swappers do when nothing raises. Let the token decode to an object header and a
  payload that parses to a JSON object, neither with an object among its values, and let
  the patch carry a nonce. Then \<^verbatim>\<open>swapIdToken\<close> and
  \<^verbatim>\<open>swapAccessToken\<close> each return what \<^verbatim>\<open>jws.sign\<close> returns, under the fixed private key,
  for a header whose \<^verbatim>\<open>kid\<close> is the fixed key identifier and whose \<^verbatim>\<open>alg\<close> is the one of
  the input token, and for claims with the nonce and the issuer of the patch and with
  \<^verbatim>\<open>exp\<close> one hour after the clock reading, in seconds. With a library whose tokens decode
  to what was signed, the returned token decodes to these values; with a key pair that
  verifies what it signs, the token verifies against the public key under that algorithm.
\<close>

theorem swap_tokens_resign:
  assumes "jws_decode e token = Some (JObj hs, payload)"
    and "json_parse e payload = Some (JObj ps)"
    and "patch_nonce d = QStr n"
    and "flat hs" and "flat ps"
  shows "\<exists>hs' ics acs.
      swapIdToken e site token d = jws_sign e (JObj hs') (JObj ics) (keys_privatePem e)
    \<and> swapAccessToken e site token d = jws_sign e (JObj hs') (JObj acs) (keys_privatePem e)
    \<and> map_of hs' ''kid'' = Some (JStr (keys_kid e))
    \<and> map_of hs' ''alg'' = map_of hs ''alg''
    \<and> (\<forall>cs \<in> {ics, acs}.
          map_of cs ''nonce'' = Some (JStr n)
        \<and> map_of cs ''iss'' = Some (JStr (patch_iss d))
        \<and> map_of cs ''exp'' = Some (JNum (date_getTime e site div 1000 + 3600)))
    \<and> (\<forall>t. swapIdToken e site token d = Inr t \<or> swapAccessToken e site token d = Inr t \<longrightarrow>
          (codec_ok e \<longrightarrow>
             decoded_header e t ''kid'' = Some (JStr (keys_kid e))
           \<and> decoded_header e t ''alg'' = map_of hs ''alg''
           \<and> decoded_claim e t ''nonce'' = Some (JStr n)
           \<and> decoded_claim e t ''iss'' = Some (JStr (patch_iss d))
           \<and> decoded_claim e t ''exp'' = Some (JNum (date_getTime e site div 1000 + 3600)))
        \<and> (keypair_ok e \<longrightarrow>
             (\<forall>alg. map_of hs ''alg'' = Some alg \<longrightarrow> jws_verify e t alg (keys_publicKey e))))"
proof -
  let ?hs' = "AList.update ''kid'' (JStr (keys_kid e)) hs"
  let ?ics = "stringify_props (id_claims e site d (to_obj ps))"
  let ?acs = "stringify_props (access_claims e site d (to_obj ps))"
  have i: "swapIdToken e site token d = jws_sign e (JObj ?hs') (JObj ?ics) (keys_privatePem e)"
    unfolding swapIdToken_def
    by (rule swap_token_valid [OF assms(1,2,4)])
       (simp add: logDiff_flat [OF assms(5)] id_claims_diffable [OF assms(5)])
  have a: "swapAccessToken e site token d
             = jws_sign e (JObj ?hs') (JObj ?acs) (keys_privatePem e)"
    unfolding swapAccessToken_def
    by (rule swap_token_valid [OF assms(1,2,4)])
       (simp add: logDiff_flat [OF assms(5)] access_claims_diffable [OF assms(5)])
  have kid: "map_of ?hs' ''kid'' = Some (JStr (keys_kid e))"
    and alg: "map_of ?hs' ''alg'' = map_of hs ''alg''"
    by (simp_all add: map_of_update_kid)
  have cl: "\<forall>cs \<in> {?ics, ?acs}.
          map_of cs ''nonce'' = Some (JStr n)
        \<and> map_of cs ''iss'' = Some (JStr (patch_iss d))
        \<and> map_of cs ''exp'' = Some (JNum (date_getTime e site div 1000 + 3600))"
    using assms(3) by (simp add: id_claims_lookup access_claims_lookup expiry_def)
  have dec: "decoded_header e t ''kid'' = Some (JStr (keys_kid e))
           \<and> decoded_header e t ''alg'' = map_of hs ''alg''
           \<and> decoded_claim e t ''nonce'' = Some (JStr n)
           \<and> decoded_claim e t ''iss'' = Some (JStr (patch_iss d))
           \<and> decoded_claim e t ''exp'' = Some (JNum (date_getTime e site div 1000 + 3600))"
    if "swapIdToken e site token d = Inr t \<or> swapAccessToken e site token d = Inr t"
      and "codec_ok e" for t
    using that(1)
  proof
    assume "swapIdToken e site token d = Inr t"
    then have "jws_sign e (JObj ?hs') (JObj ?ics) (keys_privatePem e) = Inr t"
      by (simp add: i)
    from decoded_of_signed [OF that(2) this] kid alg cl show ?thesis
      by simp
  next
    assume "swapAccessToken e site token d = Inr t"
    then have "jws_sign e (JObj ?hs') (JObj ?acs) (keys_privatePem e) = Inr t"
      by (simp add: a)
    from decoded_of_signed [OF that(2) this] kid alg cl show ?thesis
      by simp
  qed
  have ver: "jws_verify e t alg' (keys_publicKey e)"
    if "swapIdToken e site token d = Inr t \<or> swapAccessToken e site token d = Inr t"
      and "keypair_ok e" and "map_of hs ''alg'' = Some alg'" for t alg'
  proof -
    from that(1) obtain cs where "jws_sign e (JObj ?hs') (JObj cs) (keys_privatePem e) = Inr t"
      using i a by auto
    with that(2,3) alg show ?thesis
      unfolding keypair_ok_def by metis
  qed
  from i a kid alg cl dec ver show ?thesis
    by blast
qed


lemma codec_ok_example: "codec_ok example_env"
  unfolding codec_ok_def
  by (auto simp: example_env_def table_sign_def table_decode_def table_parse_def
      split: if_splits)

lemma keypair_ok_example: "keypair_ok example_env"
  unfolding keypair_ok_def
  by (auto simp: example_env_def table_sign_def table_verify_def mock_header_def
      split: if_splits)


text \<open>
  The recorded ID token of the examples, swapped while recording.
\<close>

theorem swap_tokens_resign_witness:
  "jws_decode example_env ''ID0.RECORDED.SIG''
     = Some (JObj [(''alg'', JStr ''RS256''), (''kid'', JStr ''recorded-key'')], ''recorded id claims'')
   \<and> json_parse example_env ''recorded id claims'' = Some recorded_id_claims
   \<and> codec_ok example_env \<and> keypair_ok example_env
   \<and> swapIdToken example_env 2 ''ID0.RECORDED.SIG'' (token_patch example_data None)
        = Inr ''ID2.RECORD.SIG''
   \<and> decoded_header example_env ''ID2.RECORD.SIG'' ''kid'' = Some (JStr ''mock-key'')
   \<and> decoded_header example_env ''ID2.RECORD.SIG'' ''alg'' = Some (JStr ''RS256'')
   \<and> decoded_claim example_env ''ID2.RECORD.SIG'' ''nonce'' = Some (JStr ''n-1'')
   \<and> decoded_claim example_env ''ID2.RECORD.SIG'' ''iss''
        = Some (JStr ''http://localhost:7777/oauth2/default'')
   \<and> decoded_claim example_env ''ID2.RECORD.SIG'' ''exp'' = Some (JNum 1500003600)
   \<and> jws_verify example_env ''ID2.RECORD.SIG'' (JStr ''RS256'') ''PUBLIC KEY''"
proof -
  let ?d = "token_patch example_data None"
  have d: "jws_decode example_env ''ID0.RECORDED.SIG''
     = Some (JObj [(''alg'', JStr ''RS256''), (''kid'', JStr ''recorded-key'')], ''recorded id claims'')"
    by (simp add: example_env_def table_decode_def recorded_header_def)
  have p: "json_parse example_env ''recorded id claims''
     = Some (JObj [(''sub'', JStr ''user1''), (''nonce'', JStr ''recorded-nonce''),
           (''iss'', JStr ''https://upstream.example.com:1802/oauth2/default''),
           (''at_hash'', JStr ''recorded-hash''), (''exp'', JNum 1)])"
    by (simp add: example_env_def table_parse_def recorded_id_claims_def)
  have n: "patch_nonce ?d = QStr ''n-1''"
    by (simp add: token_patch_def example_data_def)
  have s: "swapIdToken example_env 2 ''ID0.RECORDED.SIG'' ?d = Inr ''ID2.RECORD.SIG''"
    by code_simp
  have v: "patch_iss ?d = ''http://localhost:7777/oauth2/default''"
    "keys_kid example_env = ''mock-key''" "keys_publicKey example_env = ''PUBLIC KEY''"
    "date_getTime example_env 2 div 1000 + 3600 = 1500003600"
    by (simp_all add: token_patch_def issuer_def example_data_def example_env_def)
  have f: "flat [(''alg'', JStr ''RS256''), (''kid'', JStr ''recorded-key'')]"
    "flat [(''sub'', JStr ''user1''), (''nonce'', JStr ''recorded-nonce''),
           (''iss'', JStr ''https://upstream.example.com:1802/oauth2/default''),
           (''at_hash'', JStr ''recorded-hash''), (''exp'', JNum 1)]"
    by (simp_all add: flat_def)
  from swap_tokens_resign [OF d p n f, of 2] s codec_ok_example keypair_ok_example
  have "decoded_header example_env ''ID2.RECORD.SIG'' ''kid'' = Some (JStr ''mock-key'')
   \<and> decoded_header example_env ''ID2.RECORD.SIG'' ''alg'' = Some (JStr ''RS256'')
   \<and> decoded_claim example_env ''ID2.RECORD.SIG'' ''nonce'' = Some (JStr ''n-1'')
   \<and> decoded_claim example_env ''ID2.RECORD.SIG'' ''iss''
        = Some (JStr ''http://localhost:7777/oauth2/default'')
   \<and> decoded_claim example_env ''ID2.RECORD.SIG'' ''exp'' = Some (JNum 1500003600)
   \<and> jws_verify example_env ''ID2.RECORD.SIG'' (JStr ''RS256'') ''PUBLIC KEY''"
    unfolding v by auto
  with d p s codec_ok_example keypair_ok_example show ?thesis
    by (simp add: recorded_id_claims_def)
qed

text \<open>
  C6 (the code departs from it). The swappers are to give every valid token a new signature.
  The ID token \<^verbatim>\<open>ID3.ADDRESS.SIG\<close> decodes and its payload parses to claims, one of which is
  the \<^verbatim>\<open>address\<close> claim of OpenID Connect, an object. Both swappers raise \<^verbatim>\<open>TypeError\<close> on
  it and sign nothing: \<^verbatim>\<open>logDiff\<close> hands the object to \<^verbatim>\<open>diff.diffChars\<close>. The token
  \<^verbatim>\<open>ID4.TYPED.SIG\<close> has \<^verbatim>\<open>typ\<close> \<^verbatim>\<open>JWT\<close> in its header; its payload reaches \<^verbatim>\<open>JSON.parse\<close>
  already parsed, and the swapper raises \<^verbatim>\<open>SyntaxError\<close>.
\<close>

theorem swap_object_claim_raises:
  "jws_decode example_env ''ID3.ADDRESS.SIG'' = Some (recorded_header, ''address id claims'')
   \<and> json_parse example_env ''address id claims'' = Some address_id_claims
   \<and> swapIdToken example_env 2 ''ID3.ADDRESS.SIG'' (token_patch example_data None)
        = Inl TypeError
   \<and> swapAccessToken example_env 3 ''ID3.ADDRESS.SIG'' (token_patch example_data None)
        = Inl TypeError
   \<and> jws_decode example_env ''ID4.TYPED.SIG'' = Some (typed_header, ''[object Object]'')
   \<and> swapIdToken example_env 2 ''ID4.TYPED.SIG'' (token_patch example_data None)
        = Inl SyntaxError"
  by code_simp

section \<open>The body: tokens and markers\<close>


lemma match_group_Inr: "match_group r s = Inr g \<Longrightarrow> search r [] s \<noteq> None"
  by (auto simp: match_group_def split: option.splits)

lemma match_group_None: "search r [] s = None \<Longrightarrow> match_group r s = Inl TypeError"
  by (simp add: match_group_def)







lemma swap_post_message_missing:
  assumes "search id_token_js_rx [] c = None
     \<or> (\<exists>idToken newIdToken. match_group id_token_js_rx c = Inr idToken
           \<and> swapIdToken e 0 idToken (token_patch d None) = Inr newIdToken
           \<and> search access_token_rx [] (replace_str c idToken newIdToken) = None)"
  shows "swap_post_message e d c = Inl TypeError"
  using assms
proof
  assume "search id_token_js_rx [] c = None"
  then show ?thesis
    by (simp add: swap_post_message_def match_group_None)
next
  assume "\<exists>idToken newIdToken. match_group id_token_js_rx c = Inr idToken
           \<and> swapIdToken e 0 idToken (token_patch d None) = Inr newIdToken
           \<and> search access_token_rx [] (replace_str c idToken newIdToken) = None"
  then show ?thesis
    by (auto simp: swap_post_message_def match_group_None)
qed

lemma swap_token_record_missing:
  "search id_token_rx [] c = None \<Longrightarrow> swap_token_record e d c = Inl TypeError"
  by (simp add: swap_token_record_def match_group_None)

lemma swap_token_playback_missing:
  assumes "search access_token_rx [] c = None
     \<or> (\<exists>accessToken newAccessToken. match_group access_token_rx c = Inr accessToken
           \<and> swapAccessToken e 3 accessToken (token_patch d None) = Inr newAccessToken
           \<and> search id_token_rx [] (replace_str c accessToken newAccessToken) = None)"
  shows "swap_token_playback e d c = Inl TypeError"
  using assms
proof
  assume "search access_token_rx [] c = None"
  then show ?thesis
    by (simp add: swap_token_playback_def match_group_None)
next
  assume "\<exists>accessToken newAccessToken. match_group access_token_rx c = Inr accessToken
           \<and> swapAccessToken e 3 accessToken (token_patch d None) = Inr newAccessToken
           \<and> search id_token_rx [] (replace_str c accessToken newAccessToken) = None"
  then show ?thesis
    by (auto simp: swap_token_playback_def match_group_None)
qed

text \<open>
  C7. A missing marker ends the reconstruction of the body with a \<^verbatim>\<open>TypeError\<close>
  (\<^verbatim>\<open>match\<close> gives \<^verbatim>\<open>null\<close> and the index raises), in each of the flows that expect a
  token: the authorize flow with \<^verbatim>\<open>okta_post_message\<close> when the ID token marker is not in
  the rewritten text or the access token marker is not in the text after the ID token was
  swapped; the token flow while recording when the ID token marker is absent; the token
  flow in playback when the access token marker is absent or the ID token marker is absent
  after the access token was swapped. No body is returned in any of these cases.
\<close>

theorem missing_marker_raises:
  "(isAuthorizeReq d \<and> responseMode d = QStr ''okta_post_message''
      \<and> replaceUrls e chunk d = Inr c0
      \<and> (search id_token_js_rx [] c0 = None
         \<or> (\<exists>idToken newIdToken. match_group id_token_js_rx c0 = Inr idToken
               \<and> swapIdToken e 0 idToken (token_patch d None) = Inr newIdToken
               \<and> search access_token_rx [] (replace_str c0 idToken newIdToken) = None))
     \<longrightarrow> mapCachedBodyToResponse e chunk d record = Inl TypeError)
   \<and> (isTokenReq d \<and> record
      \<and> and_then (replaceUrls e chunk d) (post_message_step e d) = Inr c1
      \<and> search id_token_rx [] c1 = None
     \<longrightarrow> mapCachedBodyToResponse e chunk d record = Inl TypeError)
   \<and> (isTokenReq d \<and> \<not> record
      \<and> and_then (replaceUrls e chunk d) (post_message_step e d) = Inr c1
      \<and> (search access_token_rx [] c1 = None
         \<or> (\<exists>accessToken newAccessToken. match_group access_token_rx c1 = Inr accessToken
               \<and> swapAccessToken e 3 accessToken (token_patch d None) = Inr newAccessToken
               \<and> search id_token_rx [] (replace_str c1 accessToken newAccessToken) = None))
     \<longrightarrow> mapCachedBodyToResponse e chunk d record = Inl TypeError)"
proof (intro conjI impI)
  assume "isAuthorizeReq d \<and> responseMode d = QStr ''okta_post_message''
      \<and> replaceUrls e chunk d = Inr c0
      \<and> (search id_token_js_rx [] c0 = None
         \<or> (\<exists>idToken newIdToken. match_group id_token_js_rx c0 = Inr idToken
               \<and> swapIdToken e 0 idToken (token_patch d None) = Inr newIdToken
               \<and> search access_token_rx [] (replace_str c0 idToken newIdToken) = None))"
  then show "mapCachedBodyToResponse e chunk d record = Inl TypeError"
    using swap_post_message_missing [of c0 e d]
    by (simp add: mapCachedBodyToResponse_def post_message_step_def)
next
  assume "isTokenReq d \<and> record
      \<and> and_then (replaceUrls e chunk d) (post_message_step e d) = Inr c1
      \<and> search id_token_rx [] c1 = None"
  then show "mapCachedBodyToResponse e chunk d record = Inl TypeError"
    by (simp add: mapCachedBodyToResponse_def token_step_def swap_token_record_missing)
next
  assume "isTokenReq d \<and> \<not> record
      \<and> and_then (replaceUrls e chunk d) (post_message_step e d) = Inr c1
      \<and> (search access_token_rx [] c1 = None
         \<or> (\<exists>accessToken newAccessToken. match_group access_token_rx c1 = Inr accessToken
               \<and> swapAccessToken e 3 accessToken (token_patch d None) = Inr newAccessToken
               \<and> search id_token_rx [] (replace_str c1 accessToken newAccessToken) = None))"
  then show "mapCachedBodyToResponse e chunk d record = Inl TypeError"
    using swap_token_playback_missing [of c1 e d]
    by (simp add: mapCachedBodyToResponse_def token_step_def)
qed

text \<open>
  An empty JSON object as the body of a token response, recording and in playback.
\<close>

theorem missing_marker_raises_witness:
  "isTokenReq token_request_data
   \<and> and_then (replaceUrls example_env ''{}'' token_request_data)
        (post_message_step example_env token_request_data) = Inr ''{}''
   \<and> search id_token_rx [] ''{}'' = None \<and> search access_token_rx [] ''{}'' = None
   \<and> mapCachedBodyToResponse example_env ''{}'' token_request_data True = Inl TypeError
   \<and> mapCachedBodyToResponse example_env ''{}'' token_request_data False = Inl TypeError"
proof -
  let ?d = token_request_data
  have t: "isTokenReq ?d"
    by (simp add: token_request_data_def)
  have c: "and_then (replaceUrls example_env ''{}'' ?d) (post_message_step example_env ?d)
             = Inr ''{}''"
    by code_simp
  have i: "search id_token_rx [] ''{}'' = None"
    by code_simp
  have a: "search access_token_rx [] ''{}'' = None"
    by code_simp
  from missing_marker_raises [of ?d example_env "''{}''" _ True "''{}''"] t c i
  have r: "mapCachedBodyToResponse example_env ''{}'' ?d True = Inl TypeError"
    by simp
  from missing_marker_raises [of ?d example_env "''{}''" _ False "''{}''"] t c a
  have p: "mapCachedBodyToResponse example_env ''{}'' ?d False = Inl TypeError"
    by simp
  from t c i a r p show ?thesis
    by simp
qed

text \<open>
  C2 (the code departs from it). The recorded ID token of the examples has the claim
  \<^verbatim>\<open>at_hash\<close>. Swapped with a patch that has no \<^verbatim>\<open>at_hash\<close>, as while recording, the claims
  that are signed no longer have it: the test \<^verbatim>\<open>data.at_hash != 'undefined'\<close> holds for an
  absent hash, the claim is set to \<^verbatim>\<open>undefined\<close>, and \<^verbatim>\<open>JSON.stringify\<close> leaves it out.
\<close>

theorem swapIdToken_drops_at_hash:
  "decoded_claim example_env ''ID0.RECORDED.SIG'' ''at_hash'' = Some (JStr ''recorded-hash'')
   \<and> patch_at_hash (token_patch example_data None) = None
   \<and> swapIdToken example_env 2 ''ID0.RECORDED.SIG'' (token_patch example_data None)
        = jws_sign example_env mock_header
            (JObj [(''sub'', JStr ''user1''), (''nonce'', JStr ''n-1''),
                   (''iss'', JStr ''http://localhost:7777/oauth2/default''),
                   (''exp'', JNum 1500003600)])
            (keys_privatePem example_env)
   \<and> swapIdToken example_env 2 ''ID0.RECORDED.SIG'' (token_patch example_data None)
        = Inr ''ID2.RECORD.SIG''
   \<and> decoded_claim example_env ''ID2.RECORD.SIG'' ''at_hash'' = None"
  by code_simp

text \<open>
  The same for every library and every token whose claims have distinct names and whose
  header and claims hold no object.
\<close>

lemma swapIdToken_without_hash:
  assumes "jws_decode e token = Some (JObj hs, payload)"
    and "json_parse e payload = Some (JObj ps)"
    and "patch_at_hash d = None" and "distinct (map fst ps)"
    and "flat hs" and "flat ps"
  shows "\<exists>hs' cs. swapIdToken e site token d
                     = jws_sign e (JObj hs') (JObj cs) (keys_privatePem e)
           \<and> map_of cs ''at_hash'' = None"
proof -
  have "distinct (map fst (to_obj ps))"
    using assms(4) by (simp add: to_obj_def comp_def case_prod_beta)
  then have n: "map_of (stringify_props (id_claims e site d (to_obj ps))) ''at_hash'' = None"
    using assms(3) by (rule id_claims_drops_at_hash [rotated])
  have l: "logDiff (to_obj ps) (id_claims e site d (to_obj ps)) = Inr ()"
    by (simp add: logDiff_flat [OF assms(6)] id_claims_diffable [OF assms(6)])
  have "swap_token e (id_claims e site d) token
          = jws_sign e (JObj (AList.update ''kid'' (JStr (keys_kid e)) hs))
              (JObj (stringify_props (id_claims e site d (to_obj ps)))) (keys_privatePem e)"
    using assms(1,2,5) l by (rule swap_token_valid)
  with n show ?thesis
    unfolding swapIdToken_def by blast
qed

section \<open>Replacing in strings\<close>

lemma includes_str_sublist: "includes_str s sub \<longleftrightarrow> sublist sub s"
  unfolding includes_str_def
  by (induction s) (auto simp: sublist_Cons_right)

lemma indexOf_split:
  "indexOf s sub = Some i \<Longrightarrow> s = take i s @ sub @ drop (i + length sub) s"
proof (induction s arbitrary: i)
  case Nil
  then show ?case by (simp split: if_splits)
next
  case (Cons c cs)
  show ?case
  proof (cases "prefix sub (c # cs)")
    case True
    with Cons.prems have "i = 0" by simp
    with True show ?thesis
      by (auto simp: prefix_def)
  next
    case False
    with Cons.prems obtain j where j: "indexOf cs sub = Some j" "i = Suc j"
      by auto
    from Cons.IH [OF j(1)] j(2) show ?thesis
      by simp
  qed
qed

lemma getSubstitution_plain:
  "CHR ''$'' \<notin> set repl \<Longrightarrow> getSubstitution m pre post caps repl = repl"
  by (induction m pre post caps repl rule: getSubstitution.induct) auto

lemma replace_str_plain:
  "indexOf s pat = Some i \<Longrightarrow> CHR ''$'' \<notin> set repl \<Longrightarrow>
   replace_str s pat repl = take i s @ repl @ drop (i + length pat) s"
  by (simp add: replace_str_def getSubstitution_plain)


lemma replace_str_includes:
  assumes "includes_str s pat" and "CHR ''$'' \<notin> set repl"
  shows "includes_str (replace_str s pat repl) repl"
proof -
  from assms(1) obtain i where "indexOf s pat = Some i"
    by (auto simp: includes_str_def)
  from replace_str_plain [OF this assms(2)] show ?thesis
    by (simp add: includes_str_sublist)
qed

lemma replace_str_first:
  assumes "includes_str s pat" and "CHR ''$'' \<notin> set repl"
  shows "\<exists>pre post. s = pre @ pat @ post \<and> replace_str s pat repl = pre @ repl @ post"
proof -
  from assms(1) obtain i where i: "indexOf s pat = Some i"
    by (auto simp: includes_str_def)
  from indexOf_split [OF i] replace_str_plain [OF i assms(2)] show ?thesis
    by blast
qed

section \<open>The response headers\<close>

lemma replaceUrls_total:
  assumes "protocol (url_parse e (proxied d)) \<noteq> None"
  shows "\<exists>g. \<forall>s. replaceUrls e s d = Inr (g s)"
proof -
  from assms obtain proto where p: "protocol (url_parse e (proxied d)) = Some proto"
    by blast
  show ?thesis
    by (rule exI [of _ "\<lambda>s. replace_all (cdn_rx (url_parse e (cdn d)))
             (replace_all (escapes_rx proto (url_parse e (proxied d))) s (proxy d)) (proxy d)"])
       (simp add: replaceUrls_def Let_def p)
qed

lemma map_headers_Inr:
  "distinct (map fst hs) \<Longrightarrow>
   \<exists>m. map_headers (\<lambda>s. Inr (g s)) mapped hs = Inr m
      \<and> (\<forall>k. map_of m k =
            (case map_of hs k of
               None \<Rightarrow> map_of mapped k
             | Some (Str s) \<Rightarrow> Some (Str (g s))
             | Some (Arr xs) \<Rightarrow> Some (Arr xs)))"
proof (induction hs arbitrary: mapped)
  case Nil
  then show ?case by simp
next
  case (Cons p hs)
  obtain key v where p: "p = (key, v)"
    by (cases p)
  from Cons.prems p have d: "distinct (map fst hs)" and n: "map_of hs key = None"
    by (auto simp: map_of_eq_None_iff)
  define v' where "v' = (case v of Str s \<Rightarrow> Str (g s) | Arr xs \<Rightarrow> Arr xs)"
  have step: "map_headers (\<lambda>s. Inr (g s)) mapped (p # hs)
                = map_headers (\<lambda>s. Inr (g s)) (AList.update key v' mapped) hs"
    unfolding p v'_def by (cases v) simp_all
  from Cons.IH [OF d, of "AList.update key v' mapped"]
  obtain m where m: "map_headers (\<lambda>s. Inr (g s)) (AList.update key v' mapped) hs = Inr m"
    and lk: "\<forall>k. map_of m k =
            (case map_of hs k of
               None \<Rightarrow> map_of (AList.update key v' mapped) k
             | Some (Str s) \<Rightarrow> Some (Str (g s))
             | Some (Arr xs) \<Rightarrow> Some (Arr xs))"
    by blast
  have "map_of m k =
            (case map_of (p # hs) k of
               None \<Rightarrow> map_of mapped k
             | Some (Str s) \<Rightarrow> Some (Str (g s))
             | Some (Arr xs) \<Rightarrow> Some (Arr xs))" for k
  proof (cases "k = key")
    case True
    from lk n have "map_of m key = Some v'"
      by (simp add: update_conv')
    then show ?thesis
      unfolding True p v'_def by (cases v) simp_all
  next
    case False
    with lk [rule_format, of k] show ?thesis
      unfolding p by (simp add: update_conv' split: option.splits)
  qed
  with step m show ?case
    by simp
qed

lemma no_cache_response_lookup:
  "map_of (no_cache_response m) k =
     (if k = ''last-modified'' \<or> k = ''etag'' then None
      else if k = ''pragma'' then Some (Str ''no-cache'')
      else if k = ''cache-control'' then Some (Str ''no-cache, no-store'')
      else map_of m k)"
  by (simp add: no_cache_response_def delete_conv' update_conv')

lemma reconstructed_headers:
  assumes "distinct (map fst headers)"
    and g: "\<And>s. replaceUrls e s d = Inr (g s)"
    and "isRedirectCallback d \<longrightarrow> is_str (map_of headers ''location'')"
  shows "\<exists>mapped. mapCachedHeadersToResponse e headers d record = Inr mapped
    \<and> (\<forall>k. map_of mapped k =
          (if k = ''last-modified'' \<or> k = ''etag'' then None
           else if k = ''pragma'' then Some (Str ''no-cache'')
           else if k = ''cache-control'' then Some (Str ''no-cache, no-store'')
           else (case map_of headers k of
                   None \<Rightarrow> None
                 | Some (Str s) \<Rightarrow>
                     Some (Str (if isRedirectCallback d \<and> k = ''location''
                                then replace_str (g s) ''state=STATE''
                                       (''state='' @ template (state d))
                                else g s))
                 | Some (Arr xs) \<Rightarrow> Some (Arr xs))))"
proof -
  from map_headers_Inr [OF assms(1), of g "[]"]
  obtain m where m: "map_headers (\<lambda>s. Inr (g s)) [] headers = Inr m"
    and lk0: "\<forall>k. map_of m k =
            (case map_of headers k of
               None \<Rightarrow> map_of [] k
             | Some (Str s) \<Rightarrow> Some (Str (g s))
             | Some (Arr xs) \<Rightarrow> Some (Arr xs))"
    by blast
  have lk: "map_of m k =
            (case map_of headers k of
               None \<Rightarrow> None
             | Some (Str s) \<Rightarrow> Some (Str (g s))
             | Some (Arr xs) \<Rightarrow> Some (Arr xs))" for k
    using lk0 [rule_format, of k] by (simp split: option.splits)
  define m' where "m' =
    (if isRedirectCallback d
     then AList.update ''location''
            (Str (replace_str (g (str_of (map_of headers ''location''))) ''state=STATE''
                    (''state='' @ template (state d)))) m
     else m)"
  have rs: "restore_state d m = Inr m'"
    using assms(3) lk [of "''location''"]
    by (auto simp: restore_state_def m'_def is_str_iff)
  have res: "mapCachedHeadersToResponse e headers d record = Inr (no_cache_response m')"
    by (simp add: mapCachedHeadersToResponse_def g m rs)
  have lk': "map_of m' k =
      (case map_of headers k of
         None \<Rightarrow> None
       | Some (Str s) \<Rightarrow>
           Some (Str (if isRedirectCallback d \<and> k = ''location''
                      then replace_str (g s) ''state=STATE'' (''state='' @ template (state d))
                      else g s))
       | Some (Arr xs) \<Rightarrow> Some (Arr xs))" for k
    using assms(3) lk [of k]
    by (auto simp: m'_def update_conv' is_str_iff split: option.splits hval.splits)
  show ?thesis
    unfolding res
    by (rule exI [of _ "no_cache_response m'"]) (simp add: no_cache_response_lookup lk')
qed











section \<open>The round trip of the state\<close>

lemma replaceUrls_endpoints:
  "proxied d = proxied d' \<Longrightarrow> cdn d = cdn d' \<Longrightarrow> proxy d = proxy d' \<Longrightarrow>
   replaceUrls e s d = replaceUrls e s d'"
  by (simp add: replaceUrls_def Let_def split: option.splits)

lemma flow_authorize:
  assumes "includes_str (req_url req) ''authorize?''"
  shows "flow e record req =
     (req\<lparr>req_url := authorize_url (req_url req) (parseQuery e (req_url req) ''state'')
                        (parseQuery e (req_url req) ''nonce''),
          req_headers := (req_headers req)(''cookie'' := None)\<rparr>,
      empty_data\<lparr>isAuthorizeReq := True,
                  responseMode := parseQuery e (req_url req) ''response_mode'',
                  state := parseQuery e (req_url req) ''state'',
                  nonce := parseQuery e (req_url req) ''nonce'',
                  cookie := req_headers req ''cookie''\<rparr>)"
  using assms by (simp add: flow_def Let_def)


lemma with_endpoints_simps:
  "isRedirectCallback ((with_endpoints d cfg)\<lparr>isRedirectCallback := True\<rparr>)"
  "state ((with_endpoints d cfg)\<lparr>isRedirectCallback := True\<rparr>) = state d"
  "proxied ((with_endpoints d cfg)\<lparr>isRedirectCallback := True\<rparr>) = proxied cfg"
  "cdn ((with_endpoints d cfg)\<lparr>isRedirectCallback := True\<rparr>) = cdn cfg"
  "proxy ((with_endpoints d cfg)\<lparr>isRedirectCallback := True\<rparr>) = proxy cfg"
  by (simp_all add: with_endpoints_def)

text \<open>
  The round trip of a state without a dollar sign. Take an authorize request (its url
  contains \<^verbatim>\<open>authorize?\<close>) that normalization accepts and whose parsed query gives the strings \<open>S\<close> for \<^verbatim>\<open>state\<close> and \<open>N\<close>
  for \<^verbatim>\<open>nonce\<close>. The Session Extract records \<open>S\<close> and \<open>N\<close>. The url becomes the old one with
  the first \<^verbatim>\<open>state=S\<close> replaced by \<^verbatim>\<open>state=STATE\<close>, then the first \<^verbatim>\<open>nonce=N\<close> by
  \<^verbatim>\<open>nonce=NONCE\<close>, then the scope order fixed; if the url contains \<^verbatim>\<open>state=S\<close>, the first
  step puts \<^verbatim>\<open>state=STATE\<close> in its place. When that extract, marked as a redirect callback,
  is used to reconstruct cached headers whose \<^verbatim>\<open>location\<close> is a string that contains
  \<^verbatim>\<open>state=STATE\<close> after URL rewriting, the new \<^verbatim>\<open>location\<close> contains \<^verbatim>\<open>state=S\<close>, provided
  \<open>S\<close> has no dollar sign: \<^verbatim>\<open>replace\<close> reads the stored state as a replacement pattern.
\<close>

theorem state_round_trip:
  assumes "includes_str (req_url req) ''authorize?''" and "normalizable req"
    and "parseQuery e (req_url req) ''state'' = QStr S"
    and "parseQuery e (req_url req) ''nonce'' = QStr N"
  shows "(\<exists>d. extract_after e req record = Inr d \<and> isAuthorizeReq d
             \<and> state d = QStr S \<and> nonce d = QStr N)
    \<and> url_after e req record =
        Inr (replace_str
               (replace_str (replace_str (req_url req) (''state='' @ S) ''state=STATE'')
                  (''nonce='' @ N) ''nonce=NONCE'')
               ''profile%20email%20openid'' ''openid%20profile%20email'')
    \<and> (includes_str (req_url req) (''state='' @ S) \<longrightarrow>
         (\<exists>pre post. req_url req = pre @ ''state='' @ S @ post
            \<and> replace_str (req_url req) (''state='' @ S) ''state=STATE''
                 = pre @ ''state=STATE'' @ post))
    \<and> (\<forall>l l'. distinct (map fst headers) \<and> map_of headers ''location'' = Some (Str l)
            \<and> replaceUrls e l cfg = Inr l' \<and> includes_str l' ''state=STATE''
            \<and> CHR ''$'' \<notin> set S \<longrightarrow>
          (\<exists>l''. redirect_location e record req cfg headers = Inr (Some (Str l''))
             \<and> includes_str l'' (''state='' @ S)))"
proof -
  let ?d = "empty_data\<lparr>isAuthorizeReq := True,
                  responseMode := parseQuery e (req_url req) ''response_mode'',
                  state := QStr S, nonce := QStr N,
                  cookie := normal_headers req ''cookie''\<rparr>"
  let ?r = "req\<lparr>req_headers := normal_headers req,
                 req_url := authorize_url (req_url req) (QStr S) (QStr N),
                 req_headers := (normal_headers req)(''cookie'' := None)\<rparr>"
  have m: "mapRequestToCache e req record = Inr (?r, ?d)"
    using assms by (simp add: mapRequestToCache_eq flow_authorize)
  have ex: "\<exists>d. extract_after e req record = Inr d \<and> isAuthorizeReq d
             \<and> state d = QStr S \<and> nonce d = QStr N"
    by (simp add: extract_after_def m)
  have ur: "url_after e req record =
        Inr (replace_str
               (replace_str (replace_str (req_url req) (''state='' @ S) ''state=STATE'')
                  (''nonce='' @ N) ''nonce=NONCE'')
               ''profile%20email%20openid'' ''openid%20profile%20email'')"
    by (simp add: url_after_def m authorize_url_def)
  have fs: "\<exists>pre post. req_url req = pre @ ''state='' @ S @ post
            \<and> replace_str (req_url req) (''state='' @ S) ''state=STATE''
                 = pre @ ''state=STATE'' @ post"
    if "includes_str (req_url req) (''state='' @ S)"
    using replace_str_first [OF that, of "''state=STATE''"] by simp
  have rt: "\<exists>l''. redirect_location e record req cfg headers = Inr (Some (Str l''))
             \<and> includes_str l'' (''state='' @ S)"
    if h: "distinct (map fst headers)" "map_of headers ''location'' = Some (Str l)"
      "replaceUrls e l cfg = Inr l'" "includes_str l' ''state=STATE''" "CHR ''$'' \<notin> set S"
    for l l'
  proof -
    let ?rd = "(with_endpoints ?d cfg)\<lparr>isRedirectCallback := True\<rparr>"
    have same: "replaceUrls e s ?rd = replaceUrls e s cfg" for s
      by (rule replaceUrls_endpoints) (simp_all add: with_endpoints_simps)
    from h(3) have "protocol (url_parse e (proxied cfg)) \<noteq> None"
      by (auto simp: replaceUrls_def Let_def split: option.splits)
    from replaceUrls_total [OF this] obtain g where g: "\<And>s. replaceUrls e s cfg = Inr (g s)"
      by blast
    with h(3) have l': "l' = g l"
      by simp
    have g': "\<And>s. replaceUrls e s ?rd = Inr (g s)"
      using g same by simp
    have loc: "isRedirectCallback ?rd \<longrightarrow> is_str (map_of headers ''location'')"
      using h(2) by simp
    from reconstructed_headers [OF h(1) g' loc]
    obtain mapped where res: "mapCachedHeadersToResponse e headers ?rd record = Inr mapped"
      and lk0: "\<forall>k. map_of mapped k =
          (if k = ''last-modified'' \<or> k = ''etag'' then None
           else if k = ''pragma'' then Some (Str ''no-cache'')
           else if k = ''cache-control'' then Some (Str ''no-cache, no-store'')
           else (case map_of headers k of
                   None \<Rightarrow> None
                 | Some (Str s) \<Rightarrow>
                     Some (Str (if isRedirectCallback ?rd \<and> k = ''location''
                                then replace_str (g s) ''state=STATE''
                                       (''state='' @ template (state ?rd))
                                else g s))
                 | Some (Arr xs) \<Rightarrow> Some (Arr xs)))"
      by blast
    have lk: "map_of mapped ''location'' =
                 Some (Str (replace_str (g l) ''state=STATE'' (''state='' @ S)))"
      using lk0 [rule_format, of "''location''"] h(2)
      by (simp add: with_endpoints_def)
    have "includes_str (replace_str (g l) ''state=STATE'' (''state='' @ S)) (''state='' @ S)"
      using h(4,5) l' by (intro replace_str_includes) simp_all
    then show ?thesis
      by (simp add: redirect_location_def m res lk)
  qed
  from ex ur fs rt show ?thesis
    by blast
qed


text \<open>
  The round trip for the state \<^verbatim>\<open>s-1\<close>.
\<close>

theorem state_round_trip_witness:
  "includes_str (req_url (authorize_request ''s-1'' ''sid=1'')) ''authorize?''
   \<and> normalizable (authorize_request ''s-1'' ''sid=1'')
   \<and> parseQuery example_env (req_url (authorize_request ''s-1'' ''sid=1'')) ''state'' = QStr ''s-1''
   \<and> parseQuery example_env (req_url (authorize_request ''s-1'' ''sid=1'')) ''nonce'' = QStr ''n-1''
   \<and> url_after example_env (authorize_request ''s-1'' ''sid=1'') False
        = Inr ''/oauth2/v1/authorize?response_type=code&state=STATE&nonce=NONCE''
   \<and> (\<exists>l. redirect_location example_env False (authorize_request ''s-1'' ''sid=1'')
              example_data redirect_headers = Inr (Some (Str l))
          \<and> includes_str l ''state=s-1'')
   \<and> redirect_location example_env False (authorize_request ''s-1'' ''sid=1'') example_data
        redirect_headers = Inr (Some (Str ''http://localhost:7777/cb?code=c1&state=s-1''))"
proof -
  let ?req = "authorize_request ''s-1'' ''sid=1''"
  have a: "includes_str (req_url ?req) ''authorize?''"
    by code_simp
  have b: "normalizable ?req"
    by (simp add: normalizable_def authorize_request_def)
  have c: "parseQuery example_env (req_url ?req) ''state'' = QStr ''s-1''"
    by code_simp
  have d: "parseQuery example_env (req_url ?req) ''nonce'' = QStr ''n-1''"
    by code_simp
  have h: "distinct (map fst redirect_headers)"
    "map_of redirect_headers ''location''
       = Some (Str ''https://upstream.example.com:1802/cb?code=c1&state=STATE'')"
    by (simp_all add: redirect_headers_def)
  have r: "replaceUrls example_env ''https://upstream.example.com:1802/cb?code=c1&state=STATE''
             example_data = Inr ''http://localhost:7777/cb?code=c1&state=STATE''"
    by code_simp
  have i: "includes_str ''http://localhost:7777/cb?code=c1&state=STATE'' ''state=STATE''"
    by code_simp
  have n: "CHR ''$'' \<notin> set ''s-1''"
    by simp
  from state_round_trip [OF a b c d, of False redirect_headers example_data]
  have u: "url_after example_env ?req False =
        Inr (replace_str
               (replace_str (replace_str (req_url ?req) (''state='' @ ''s-1'') ''state=STATE'')
                  (''nonce='' @ ''n-1'') ''nonce=NONCE'')
               ''profile%20email%20openid'' ''openid%20profile%20email'')"
    and rt: "\<forall>l l'. distinct (map fst redirect_headers)
            \<and> map_of redirect_headers ''location'' = Some (Str l)
            \<and> replaceUrls example_env l example_data = Inr l' \<and> includes_str l' ''state=STATE''
            \<and> CHR ''$'' \<notin> set ''s-1'' \<longrightarrow>
          (\<exists>l''. redirect_location example_env False ?req example_data redirect_headers
                    = Inr (Some (Str l''))
             \<and> includes_str l'' (''state='' @ ''s-1''))"
    by blast+
  have v: "replace_str
               (replace_str (replace_str (req_url ?req) (''state='' @ ''s-1'') ''state=STATE'')
                  (''nonce='' @ ''n-1'') ''nonce=NONCE'')
               ''profile%20email%20openid'' ''openid%20profile%20email''
             = ''/oauth2/v1/authorize?response_type=code&state=STATE&nonce=NONCE''"
    by code_simp
  from rt h r i n
  have w: "\<exists>l. redirect_location example_env False ?req example_data redirect_headers
                 = Inr (Some (Str l))
          \<and> includes_str l ''state=s-1''"
    by fastforce
  have e: "redirect_location example_env False ?req example_data redirect_headers
             = Inr (Some (Str ''http://localhost:7777/cb?code=c1&state=s-1''))"
    by code_simp
  show ?thesis
    by (intro conjI) (rule a b c d u [unfolded v] w e)+
qed

text \<open>
  C4 (the code departs from it). The state is to come back as it was sent. For the state
  \<^verbatim>\<open>a$$b\<close> the url contains \<^verbatim>\<open>state=a$$b\<close>, the extract records \<^verbatim>\<open>a$$b\<close>, the url is
  rewritten to \<^verbatim>\<open>state=STATE\<close>, and the \<^verbatim>\<open>location\<close> reconstructed from a redirect with
  \<^verbatim>\<open>state=STATE\<close> has \<^verbatim>\<open>state=a$b\<close>: \<^verbatim>\<open>replace\<close> reads the stored state as a replacement
  pattern, in which two dollar signs stand for one.
\<close>

theorem state_dollar_counterexample:
  "includes_str (req_url (authorize_request ''a$$b'' ''sid=1'')) ''state=a$$b''
   \<and> map_sum id state (extract_after example_env (authorize_request ''a$$b'' ''sid=1'') False)
        = Inr (QStr ''a$$b'')
   \<and> url_after example_env (authorize_request ''a$$b'' ''sid=1'') False
        = Inr ''/oauth2/v1/authorize?response_type=code&state=STATE&nonce=NONCE''
   \<and> includes_str ''https://upstream.example.com:1802/cb?code=c1&state=STATE'' ''state=STATE''
   \<and> redirect_location example_env False (authorize_request ''a$$b'' ''sid=1'') example_data
        redirect_headers = Inr (Some (Str ''http://localhost:7777/cb?code=c1&state=a$b''))
   \<and> \<not> includes_str ''http://localhost:7777/cb?code=c1&state=a$b'' ''state=a$$b''"
  by code_simp

text \<open>
  The url is rewritten at the first place where the text \<^verbatim>\<open>state=S\<close> stands, which need
  not be the parameter \<^verbatim>\<open>state\<close>.
\<close>

lemma relay_state_kept:
  "parseQuery example_env ''/oauth2/v1/authorize?relay_state=s-1&state=s-1&nonce=n-1'' ''state''
     = QStr ''s-1''
   \<and> url_after example_env
        (plain_request ''/oauth2/v1/authorize?relay_state=s-1&state=s-1&nonce=n-1'' Map.empty) False
     = Inr ''/oauth2/v1/authorize?relay_state=STATE&state=s-1&nonce=NONCE''"
  by code_simp

section \<open>The engine and what a pattern accepts\<close>







section \<open>The url rewriter: occurrences\<close>















section \<open>Normalizing twice\<close>

subsection \<open>The names of the request headers of a preflight\<close>










subsection \<open>The url of an authorize request\<close>





lemma flow_method: "req_method (fst (flow e record r)) = req_method r"
  by (simp add: flow_def Let_def)


subsection \<open>The normalized headers are a fixed point of every step but the cookie\<close>

















subsection \<open>The second normalization\<close>




end
